theory Spec2Isabelle
  imports Main
begin

section \<open>Data model\<close>

text \<open>
  The crawler keeps two structures in memory: the object \<open>urlMap\<close> (URL to the file
  names of its artifacts) and the module-level array \<open>failedUrls\<close>. Both are written to
  \<open>out/index.json\<close> and \<open>out/failed_urls.json\<close> by \<open>updateIndexFiles\<close>.

  \<open>urlMap\<close> is a plain object used as a dictionary. Its own keys and their values are
  modelled as a map. Every value the program stores in it (and so every value of an
  index file the program wrote) is an object, hence truthy. A lookup \<open>urlMap[url]\<close>
  that finds no own key goes on to the properties every object inherits; they are listed
  in \<open>inheritedNames\<close> below, where the filter of the work list makes that lookup.
\<close>

type_synonym url = string

datatype artifacts =
    PageArtifacts string string string   \<comment> \<open>\<open>{screenshot, html, text}\<close>\<close>
  | DocumentArtifacts string string      \<comment> \<open>\<open>{document, text}\<close>\<close>

record failure =
  url :: string
  error :: string
  timestamp :: string

type_synonym index = "url \<rightharpoonup> artifacts"

text \<open>
  A JSON file on disk, as \<open>loadExistingData\<close> can find it: absent; present but
  \<open>fs.readFile\<close> rejects; readable but \<open>JSON.parse\<close> throws; or holding a value.
\<close>

datatype 'a jsonfile = Missing | Unreadable string | Malformed string | Parsed 'a

text \<open>The lines the program sends to \<open>console.error\<close>.\<close>

datatype errline =
    ErrorLoadingIndex string
  | ErrorLoadingFailedUrls string
  | ErrorCheckingContentType url string
  | ErrorUpdatingIndexFiles string
  | TimeoutOccurred url
  | ErrorProcessing url string

text \<open>
  What is in flight with nobody waiting for it: a call of \<open>updateIndexFiles\<close> whose
  promise is not awaited (the call in \<open>recordFailure\<close>), with the snapshot it
  serialised; or the one write that is still running when \<open>Promise.all\<close> has rejected
  on the other, with the value it writes.
\<close>

datatype pending =
    Call index "failure list"
  | IndexWrite index
  | LedgerWrite "failure list"

text \<open>
  The state of the running script. \<open>index_json\<close> and \<open>failed_json\<close> are the two
  persisted files as the writes that have settled left them; \<open>unawaited\<close> is what is
  still in flight. \<open>files\<close> are the artifact files present under \<open>out/\<close>, \<open>pages\<close>
  the browser pages opened and not closed. \<open>abandoned\<close> lists the captures that lost
  the race against their timer, each with its URL and file hash: the script does not
  cancel them.
\<close>

record state =
  urlMap :: index
  failedUrls :: "failure list"
  index_json :: "index jsonfile"
  failed_json :: "failure list jsonfile"
  unawaited :: "pending list"
  abandoned :: "(url \<times> string) list"
  files :: "string set"
  pages :: nat
  contextOpen :: bool
  isShuttingDown :: bool
  processed :: nat
  stderr :: "errline list"

section \<open>What the outside world answers\<close>

text \<open>
  The response to the \<open>HEAD\<close> request of \<open>checkContentType\<close>: \<open>fetch\<close> rejects, the
  response has no \<open>content-type\<close> header, or it has one.
\<close>

datatype probe = ProbeError string | NoContentType | ContentType string

text \<open>
  \<open>downloadFile\<close>: \<open>fetch\<close> or \<open>arrayBuffer\<close> rejects, \<open>fs.writeFile\<close> rejects, or the
  body is saved.
\<close>

datatype download = FetchFailed string | SaveFailed string | Downloaded

text \<open>
  The page capture of \<open>takeScreenshots\<close>, raced against the 5000 ms timer.
  \<open>NewPageFailed\<close>: \<open>context.newPage()\<close> rejects. \<open>Rejected n m\<close>: a step of the capture
  rejects with message \<open>m\<close> before the timer fires, after \<open>n\<close> of the three artifact files
  were written. \<open>TimerFirst n\<close>: the timer rejects first. \<open>CloseFailed m\<close>: the capture
  finishes in time and \<open>page.close()\<close> rejects. \<open>Fulfilled\<close>: all of it succeeds.
\<close>

datatype capture =
    NewPageFailed string
  | Rejected nat string
  | TimerFirst nat
  | CloseFailed string
  | Fulfilled

text \<open>
  One \<open>fs.writeFile\<close> of \<open>updateIndexFiles\<close>, as it stands when \<open>Promise.all\<close> settles:
  the file is written; the write has rejected and left the file as it was; it has
  rejected and left a truncated file, on which \<open>JSON.parse\<close> will throw (the second
  message is that of the parser); or the write is still in flight. \<open>Promise.all\<close> waits
  for both writes unless one rejects, so a write in flight stands next to a rejection
  of the other write.
\<close>

datatype wr = Saved | Refused string | Truncated string string | InFlight

text \<open>
  A capture that lost the race and goes on by itself: a later step of it rejects, after
  so many of the three files are written, and nobody hears of it; or it runs to its end,
  which is the awaited \<open>updateIndexFiles\<close> inside the capture.
\<close>

datatype late = LateRejected nat | LateFulfilled "wr \<times> wr"

record world =
  now :: string                    \<comment> \<open>\<open>new Date().toISOString()\<close>\<close>
  probe :: probe                   \<comment> \<open>answer to the dispatch probe\<close>
  reprobe :: probe                 \<comment> \<open>answer to the probe of \<open>processDocument\<close>\<close>
  download :: download
  extraction :: "string + string"  \<comment> \<open>\<open>pdf-parse\<close> or \<open>mammoth\<close>: error or text\<close>
  saveText :: "string option"      \<comment> \<open>error of \<open>fs.writeFile(textPath, text)\<close>\<close>
  capture :: capture
  flush :: "wr \<times> wr"              \<comment> \<open>the writes of \<open>index.json\<close> and \<open>failed_urls.json\<close>\<close>

section \<open>utils.js\<close>

text \<open>
  \<open>String.prototype.toLowerCase\<close> on a header value. A header value is a byte string
  read as Latin-1: the capital letters are \<open>A\<close> to \<open>Z\<close> and the code points 192 to 222
  except 215.
\<close>

definition lowerChar :: "char \<Rightarrow> char" where
  "lowerChar c =
     (let n = (of_char c :: nat)
      in if (65 \<le> n \<and> n \<le> 90) \<or> (192 \<le> n \<and> n \<le> 222 \<and> n \<noteq> 215)
         then char_of (n + 32) else c)"

definition toLowerCase :: "string \<Rightarrow> string" where
  "toLowerCase s = map lowerChar s"

text \<open>\<open>String.prototype.includes\<close>: the second string occurs in the first.\<close>

fun includes_str :: "string \<Rightarrow> string \<Rightarrow> bool" where
  "includes_str [] t = (t = [])"
| "includes_str (c # s) t = (take (length t) (c # s) = t \<or> includes_str s t)"

text \<open>
  \<open>path.join(dir, name)\<close> for the directory constants of the script, which it writes
  \<open>./out/...\<close> and \<open>path.join\<close> normalises to \<open>out/...\<close>.
\<close>

definition path_join :: "string \<Rightarrow> string \<Rightarrow> string" where
  "path_join dir name = dir @ ''/'' @ name"

definition screenshotsDir :: string where "screenshotsDir = ''out/screenshots''"
definition htmlDir :: string where "htmlDir = ''out/html''"
definition textDir :: string where "textDir = ''out/text''"
definition docDir :: string where "docDir = ''out/doc''"

definition loadExistingData ::
  "index jsonfile \<Rightarrow> failure list jsonfile \<Rightarrow> index \<times> failure list \<times> errline list" where
  "loadExistingData index failed =
     (let (existingUrlMap, log1) =
            (case index of
               Missing \<Rightarrow> (Map.empty, [])
             | Unreadable m \<Rightarrow> (Map.empty, [ErrorLoadingIndex m])
             | Malformed m \<Rightarrow> (Map.empty, [ErrorLoadingIndex m])
             | Parsed v \<Rightarrow> (v, []));
          (existingFailures, log2) =
            (case failed of
               Missing \<Rightarrow> ([], [])
             | Unreadable m \<Rightarrow> ([], [ErrorLoadingFailedUrls m])
             | Malformed m \<Rightarrow> ([], [ErrorLoadingFailedUrls m])
             | Parsed v \<Rightarrow> (v, []))
      in (existingUrlMap, existingFailures, log1 @ log2))"

text \<open>
  \<open>checkContentType\<close> catches every error of the probe and answers the empty string;
  a missing header gives the empty string through \<open>|| ''\<close>.
\<close>

definition checkContentType :: "url \<Rightarrow> probe \<Rightarrow> state \<Rightarrow> string \<times> state" where
  "checkContentType u p st =
     (case p of
        ProbeError m \<Rightarrow> ('''', st\<lparr>stderr := stderr st @ [ErrorCheckingContentType u m]\<rparr>)
      | NoContentType \<Rightarrow> ('''', st)
      | ContentType s \<Rightarrow> (toLowerCase s, st))"

definition checkFilesExist :: "string list \<Rightarrow> state \<Rightarrow> bool" where
  "checkFilesExist paths st = list_all (\<lambda>p. p \<in> files st) paths"

text \<open>
  \<open>updateIndexFiles\<close> serialises the two values and starts both writes, then awaits
  \<open>Promise.all\<close> inside a \<open>try\<close>. A write that has succeeded has replaced its file
  with the serialised value. When a write rejects, \<open>Promise.all\<close> rejects at once: the
  \<open>catch\<close> logs the message of that first rejection and the function returns normally,
  while the other write, if it has not settled, stays in flight.
\<close>

definition written :: "wr \<Rightarrow> 'a \<Rightarrow> 'a jsonfile \<Rightarrow> 'a jsonfile" where
  "written w v old =
     (case w of
        Saved \<Rightarrow> Parsed v
      | Refused m \<Rightarrow> old
      | Truncated m parse \<Rightarrow> Malformed parse
      | InFlight \<Rightarrow> old)"

definition rejection :: "wr \<Rightarrow> string option" where
  "rejection w =
     (case w of
        Saved \<Rightarrow> None
      | Refused m \<Rightarrow> Some m
      | Truncated m parse \<Rightarrow> Some m
      | InFlight \<Rightarrow> None)"

definition writeError :: "wr \<times> wr \<Rightarrow> string option" where
  "writeError ws =
     (case rejection (fst ws) of
        Some m \<Rightarrow> Some m
      | None \<Rightarrow> rejection (snd ws))"

definition leftover :: "wr \<times> wr \<Rightarrow> index \<Rightarrow> failure list \<Rightarrow> pending list" where
  "leftover ws m fs =
     (case fst ws of InFlight \<Rightarrow> [IndexWrite m] | _ \<Rightarrow> []) @
     (case snd ws of InFlight \<Rightarrow> [LedgerWrite fs] | _ \<Rightarrow> [])"

text \<open>
  The part of \<open>updateIndexFiles\<close> after its \<open>await\<close>, for the snapshot \<open>m\<close>, \<open>fs\<close> that
  the call serialised.
\<close>

definition afterWrites :: "wr \<times> wr \<Rightarrow> index \<Rightarrow> failure list \<Rightarrow> state \<Rightarrow> state" where
  "afterWrites ws m fs st =
     (let st1 = st\<lparr>index_json := written (fst ws) m (index_json st),
                   failed_json := written (snd ws) fs (failed_json st),
                   unawaited := unawaited st @ leftover ws m fs\<rparr>
      in case writeError ws of
           None \<Rightarrow> st1
         | Some e \<Rightarrow> st1\<lparr>stderr := stderr st1 @ [ErrorUpdatingIndexFiles e]\<rparr>)"

text \<open>\<open>updateIndexFiles\<close>, awaited: the call and what follows its \<open>await\<close>, in one step.\<close>

definition updateIndexFiles :: "wr \<times> wr \<Rightarrow> state \<Rightarrow> state" where
  "updateIndexFiles ws st = afterWrites ws (urlMap st) (failedUrls st) st"

text \<open>
  What was left in flight settles, at a time the script does not choose: the \<open>n\<close>-th
  entry of \<open>unawaited\<close>. An unawaited call goes through the same \<open>try\<close> and \<open>catch\<close> as
  an awaited one. A write that \<open>Promise.all\<close> has given up on changes its file and is
  reported nowhere.
\<close>

definition without :: "nat \<Rightarrow> 'a list \<Rightarrow> 'a list" where
  "without n xs = take n xs @ drop (Suc n) xs"

definition settle :: "nat \<Rightarrow> wr \<times> wr \<Rightarrow> state \<Rightarrow> state" where
  "settle n ws st =
     (if n < length (unawaited st) then
        (let st1 = st\<lparr>unawaited := without n (unawaited st)\<rparr>
         in case unawaited st ! n of
              Call m fs \<Rightarrow> afterWrites ws m fs st1
            | IndexWrite m \<Rightarrow> st1\<lparr>index_json := written (fst ws) m (index_json st1)\<rparr>
            | LedgerWrite fs \<Rightarrow> st1\<lparr>failed_json := written (snd ws) fs (failed_json st1)\<rparr>)
      else st)"

section \<open>documentProcessor.js\<close>

text \<open>
  \<open>processDocument\<close> probes the content type again, picks the extension from that
  answer, downloads, extracts, and saves the text. Every rejection propagates to the
  caller: the result is the message of the error thrown, or the artifact record.
\<close>

definition extension :: "string \<Rightarrow> string" where
  "extension contentType =
     (if includes_str contentType ''pdf'' then ''.pdf''
      else if includes_str contentType ''word'' then ''.docx'' else ''.bin'')"

definition processDocument ::
  "url \<Rightarrow> string \<Rightarrow> world \<Rightarrow> state \<Rightarrow> (string + artifacts) \<times> state" where
  "processDocument u fileHash w st =
     (let (contentType, st1) = checkContentType u (reprobe w) st;
          docPath = path_join docDir (fileHash @ extension contentType);
          textPath = path_join textDir (fileHash @ ''.txt'')
      in case download w of
           FetchFailed m \<Rightarrow> (Inl m, st1)
         | SaveFailed m \<Rightarrow> (Inl m, st1)
         | Downloaded \<Rightarrow>
             (let st2 = st1\<lparr>files := insert docPath (files st1)\<rparr>;
                  text =
                    (if includes_str contentType ''pdf'' then extraction w
                     else if includes_str contentType ''word'' then extraction w
                     else Inl (''Unsupported document type: '' @ contentType))
              in case text of
                   Inl m \<Rightarrow> (Inl m, st2)
                 | Inr t \<Rightarrow>
                     (case saveText w of
                        Some m \<Rightarrow> (Inl m, st2)
                      | None \<Rightarrow>
                          (Inr (DocumentArtifacts (fileHash @ extension contentType)
                                  (fileHash @ ''.txt'')),
                           st2\<lparr>files := insert textPath (files st2)\<rparr>))))"

section \<open>The script\<close>

text \<open>
  \<open>recordFailure\<close> pushes the record and calls \<open>updateIndexFiles\<close> without awaiting it:
  the snapshot is serialised and the writes are started, and the caller goes on.
\<close>

definition recordFailure :: "url \<Rightarrow> string \<Rightarrow> string \<Rightarrow> state \<Rightarrow> state" where
  "recordFailure u message t st =
     (let st1 = st\<lparr>failedUrls := failedUrls st @ [\<lparr>url = u, error = message, timestamp = t\<rparr>]\<rparr>
      in st1\<lparr>unawaited := unawaited st1 @ [Call (urlMap st1) (failedUrls st1)]\<rparr>)"

text \<open>The \<open>catch\<close> block around the processing of one URL.\<close>

definition catchError :: "url \<Rightarrow> string \<Rightarrow> string \<Rightarrow> state \<Rightarrow> state" where
  "catchError u message t st =
     (if message = ''Timeout''
      then recordFailure u ''Processing timeout'' t (st\<lparr>stderr := stderr st @ [TimeoutOccurred u]\<rparr>)
      else recordFailure u message t (st\<lparr>stderr := stderr st @ [ErrorProcessing u message]\<rparr>))"

definition pageFiles :: "string \<Rightarrow> string list" where
  "pageFiles fileHash =
     [path_join screenshotsDir (fileHash @ ''.png''),
      path_join htmlDir (fileHash @ ''.html''),
      path_join textDir (fileHash @ ''.txt'')]"

definition pageArtifacts :: "string \<Rightarrow> artifacts" where
  "pageArtifacts fileHash =
     PageArtifacts (fileHash @ ''.png'') (fileHash @ ''.html'') (fileHash @ ''.txt'')"

text \<open>
  The script wraps the processing of one URL in \<open>try\<close> and \<open>catch\<close>. The parts of
  the \<open>try\<close> block below answer the message of the error they throw, if they throw,
  and the state they leave.

  The document branch: \<open>urlMap[url] = await processDocument(...)\<close> and the awaited
  \<open>updateIndexFiles\<close>.
\<close>

definition documentBranch :: "url \<Rightarrow> string \<Rightarrow> world \<Rightarrow> state \<Rightarrow> string option \<times> state" where
  "documentBranch u fileHash w st =
     (case processDocument u fileHash w st of
        (Inl m, st1) \<Rightarrow> (Some m, st1)
      | (Inr a, st1) \<Rightarrow>
          (None, updateIndexFiles (flush w) (st1\<lparr>urlMap := (urlMap st1)(u \<mapsto> a)\<rparr>)))"

text \<open>
  The capture, from \<open>context.newPage()\<close> to \<open>page.close()\<close>. \<open>page.close()\<close> stands
  after the race, inside the \<open>try\<close>, so it runs only when the race is fulfilled. When
  the timer wins, the capture it raced against is not cancelled: it is put down in
  \<open>abandoned\<close>, and \<open>abandonedEnds\<close> below is what it does later.
\<close>

definition capturePage :: "url \<Rightarrow> string \<Rightarrow> world \<Rightarrow> state \<Rightarrow> string option \<times> state" where
  "capturePage u fileHash w st =
     (case capture w of
        NewPageFailed m \<Rightarrow> (Some m, st)
      | Rejected n m \<Rightarrow>
          (Some m, st\<lparr>pages := Suc (pages st),
                       files := files st \<union> set (take n (pageFiles fileHash))\<rparr>)
      | TimerFirst n \<Rightarrow>
          (Some ''Timeout'', st\<lparr>pages := Suc (pages st),
                                 files := files st \<union> set (take n (pageFiles fileHash)),
                                 abandoned := abandoned st @ [(u, fileHash)]\<rparr>)
      | CloseFailed m \<Rightarrow>
          (Some m, updateIndexFiles (flush w)
                     (st\<lparr>pages := Suc (pages st),
                         files := files st \<union> set (pageFiles fileHash),
                         urlMap := (urlMap st)(u \<mapsto> pageArtifacts fileHash)\<rparr>))
      | Fulfilled \<Rightarrow>
          (let st1 = updateIndexFiles (flush w)
                       (st\<lparr>pages := Suc (pages st),
                           files := files st \<union> set (pageFiles fileHash),
                           urlMap := (urlMap st)(u \<mapsto> pageArtifacts fileHash)\<rparr>)
           in (None, st1\<lparr>pages := pages st1 - 1\<rparr>)))"

text \<open>
  The \<open>i\<close>-th abandoned capture ends, during a later URL or after the loop. If it runs to
  its end it has written the three files, set \<open>urlMap[url]\<close> and awaited
  \<open>updateIndexFiles\<close>, although the URL is in the ledger as timed out. Its page is
  closed by nobody.
\<close>

definition abandonedEnds :: "nat \<Rightarrow> late \<Rightarrow> state \<Rightarrow> state" where
  "abandonedEnds i l st =
     (if i < length (abandoned st) then
        (let (u, fileHash) = abandoned st ! i;
             st1 = st\<lparr>abandoned := without i (abandoned st)\<rparr>
         in case l of
              LateRejected n \<Rightarrow> st1\<lparr>files := files st1 \<union> set (take n (pageFiles fileHash))\<rparr>
            | LateFulfilled ws \<Rightarrow>
                updateIndexFiles ws
                  (st1\<lparr>files := files st1 \<union> set (pageFiles fileHash),
                       urlMap := (urlMap st1)(u \<mapsto> pageArtifacts fileHash)\<rparr>))
      else st)"

text \<open>The page branch: the skip check, then the capture.\<close>

definition pageBranch :: "url \<Rightarrow> string \<Rightarrow> world \<Rightarrow> state \<Rightarrow> string option \<times> state" where
  "pageBranch u fileHash w st =
     (if checkFilesExist (pageFiles fileHash) st then
        (None, updateIndexFiles (flush w)
                 (st\<lparr>urlMap := (urlMap st)(u \<mapsto> pageArtifacts fileHash)\<rparr>))
      else capturePage u fileHash w st)"

text \<open>The \<open>try\<close> block: the probe and the dispatch on its answer.\<close>

definition tryBlock :: "url \<Rightarrow> string \<Rightarrow> world \<Rightarrow> state \<Rightarrow> string option \<times> state" where
  "tryBlock u fileHash w st =
     (let (contentType, st1) = checkContentType u (probe w) st
      in if includes_str contentType ''pdf'' \<or> includes_str contentType ''word'' then
           documentBranch u fileHash w st1
         else if \<not> includes_str contentType ''html'' then
           (None, recordFailure u (''Unsupported content type: '' @ contentType) (now w) st1)
         else pageBranch u fileHash w st1)"

text \<open>
  The body of the \<open>for\<close> loop for one URL, from \<open>hashUrl\<close> to the end of the \<open>catch\<close>.
  \<open>hashUrl\<close> is the MD5 digest of the URL in hexadecimal; it is a parameter here.
\<close>

definition processUrl :: "(url \<Rightarrow> string) \<Rightarrow> url \<Rightarrow> world \<Rightarrow> state \<Rightarrow> state" where
  "processUrl hashUrl u w st =
     (case tryBlock u (hashUrl u) w st of
        (None, st1) \<Rightarrow> st1
      | (Some m, st1) \<Rightarrow> catchError u m (now w) st1)"

text \<open>
  The \<open>for\<close> loop over \<open>urlsToProcess\<close>. \<open>env k\<close> is what the world answers while the
  \<open>k\<close>-th URL of the work list is processed.
\<close>

fun loop :: "(url \<Rightarrow> string) \<Rightarrow> (nat \<Rightarrow> world) \<Rightarrow> nat \<Rightarrow> state \<Rightarrow> url list \<Rightarrow> state" where
  "loop hashUrl env k st [] = st"
| "loop hashUrl env k st (u # us) =
     (if isShuttingDown st then st
      else loop hashUrl env (Suc k)
             (processUrl hashUrl u (env k) (st\<lparr>processed := Suc (processed st)\<rparr>)) us)"

text \<open>
  The filter that computes the work list keeps the URLs for which \<open>urlMap[url]\<close> is
  falsy. The lookup finds an own key of the object, whose value is an artifact record
  and truthy, or else a property inherited from \<open>Object.prototype\<close>, of which each holds
  a function or an object and is truthy too. Their names come with the language, not
  with the repository.
\<close>

definition inheritedNames :: "string list" where
  "inheritedNames =
     [''constructor'', ''__defineGetter__'', ''__defineSetter__'', ''hasOwnProperty'',
      ''__lookupGetter__'', ''__lookupSetter__'', ''isPrototypeOf'',
      ''propertyIsEnumerable'', ''toString'', ''valueOf'', ''__proto__'',
      ''toLocaleString'']"

definition truthyAt :: "index \<Rightarrow> url \<Rightarrow> bool" where
  "truthyAt m u = (case m u of Some a \<Rightarrow> True | None \<Rightarrow> u \<in> set inheritedNames)"

definition urlsToProcess :: "url list \<Rightarrow> index \<Rightarrow> url list" where
  "urlsToProcess urls m = filter (\<lambda>u. \<not> truthyAt m u) urls"

text \<open>
  What \<open>takeScreenshots\<close> finds at startup: the two persisted files, the result of
  reading and parsing \<open>urls.json\<close>, the first error of \<open>ensureDirectoryExists\<close> and of
  \<open>chromium.launchPersistentContext\<close> if there is one, and the files already under
  \<open>out/\<close>.
\<close>

record startup =
  index_file :: "index jsonfile"
  failed_file :: "failure list jsonfile"
  urls_file :: "string + url list"
  mkdirs :: "string option"
  launch :: "string option"
  existing :: "string set"

definition workList :: "startup \<Rightarrow> url list" where
  "workList su =
     (case urls_file su of
        Inl m \<Rightarrow> []
      | Inr urls \<Rightarrow> urlsToProcess urls (fst (loadExistingData (index_file su) (failed_file su))))"

definition initial :: "startup \<Rightarrow> state" where
  "initial su =
     (let (existingUrlMap, existingFailures, log) =
            loadExistingData (index_file su) (failed_file su)
      in \<lparr>urlMap = existingUrlMap, failedUrls = existingFailures,
          index_json = index_file su, failed_json = failed_file su,
          unawaited = [], abandoned = [], files = existing su, pages = 0,
          contextOpen = True,
          isShuttingDown = False, processed = 0, stderr = log\<rparr>)"

text \<open>The \<open>finally\<close> block: the summary is printed and the browser context is closed.\<close>

definition finallyBlock :: "state \<Rightarrow> state" where
  "finallyBlock st = st\<lparr>contextOpen := False, pages := 0\<rparr>"

text \<open>
  \<open>takeScreenshots\<close> when no signal arrives. \<open>Inl m\<close> is the rejection that the last
  line of the script turns into \<open>Fatal error\<close> and \<open>process.exit(1)\<close>.
\<close>

definition takeScreenshots ::
  "(url \<Rightarrow> string) \<Rightarrow> startup \<Rightarrow> (nat \<Rightarrow> world) \<Rightarrow> string + state" where
  "takeScreenshots hashUrl su env =
     (case urls_file su of
        Inl m \<Rightarrow> Inl m
      | Inr urls \<Rightarrow>
          (case mkdirs su of
             Some m \<Rightarrow> Inl m
           | None \<Rightarrow>
               (case launch su of
                  Some m \<Rightarrow> Inl m
                | None \<Rightarrow> Inr (finallyBlock (loop hashUrl env 0 (initial su) (workList su))))))"

section \<open>Signals\<close>

text \<open>
  \<open>handleShutdown\<close> is registered for \<open>SIGINT\<close> and \<open>SIGTERM\<close>. It runs between the
  steps of the loop, and it awaits twice itself, so the loop and further signals can run
  before it reaches \<open>process.exit(0)\<close>. The first part below is the handler up to the
  call of \<open>context.close()\<close>; its awaited write is taken as one step with the delivery
  of the signal, as the awaited writes of the loop are with theirs.
\<close>

definition handleShutdown :: "wr \<times> wr \<Rightarrow> state \<Rightarrow> state" where
  "handleShutdown ws st =
     (if isShuttingDown st then st
      else updateIndexFiles ws (st\<lparr>isShuttingDown := True\<rparr>))"

text \<open>
  The process as a whole: the state of the script, the URLs of the work list that the
  loop has not reached, the URL whose processing has started and has not reached its
  outcome, whether the loop has been left, and the exit status once the process has
  ended.
\<close>

record proc =
  mem :: state
  todo :: "url list"
  inflight :: "url option"
  loopDone :: bool
  exitStatus :: "nat option"

text \<open>
  What can happen next. \<open>Signal\<close>: a signal is delivered and the handler runs up to
  \<open>context.close()\<close>. \<open>ContextClosed\<close>: that call of the handler resolves and the
  handler exits the process. \<open>LoopHead\<close>: the loop reaches its head, tests the flag and
  starts the next URL or leaves. \<open>Outcome\<close>: the URL in flight reaches the end of its
  \<open>try\<close> or \<open>catch\<close>. \<open>Settles\<close>: something left in flight by \<open>updateIndexFiles\<close>
  settles. \<open>Ends\<close>: an abandoned capture ends. Nothing happens in a process that has
  exited.
\<close>

datatype event =
    Signal "wr \<times> wr"
  | ContextClosed
  | LoopHead
  | Outcome world
  | Settles nat "wr \<times> wr"
  | Ends nat late

definition deliver :: "(url \<Rightarrow> string) \<Rightarrow> proc \<Rightarrow> event \<Rightarrow> proc" where
  "deliver hashUrl p e =
     (if exitStatus p \<noteq> None then p
      else case e of
        Signal ws \<Rightarrow> p\<lparr>mem := handleShutdown ws (mem p)\<rparr>
      | ContextClosed \<Rightarrow>
          if isShuttingDown (mem p)
          then p\<lparr>mem := (mem p)\<lparr>contextOpen := False, pages := 0\<rparr>, exitStatus := Some 0\<rparr>
          else p
      | LoopHead \<Rightarrow>
          if inflight p \<noteq> None \<or> loopDone p then p
          else (case todo p of
                  [] \<Rightarrow> p\<lparr>mem := finallyBlock (mem p), loopDone := True\<rparr>
                | u # us \<Rightarrow>
                    if isShuttingDown (mem p)
                    then p\<lparr>mem := finallyBlock (mem p), loopDone := True\<rparr>
                    else p\<lparr>mem := (mem p)\<lparr>processed := Suc (processed (mem p))\<rparr>,
                           todo := us, inflight := Some u\<rparr>)
      | Outcome w \<Rightarrow>
          (case inflight p of
             None \<Rightarrow> p
           | Some u \<Rightarrow> p\<lparr>mem := processUrl hashUrl u w (mem p), inflight := None\<rparr>)
      | Settles n ws \<Rightarrow> p\<lparr>mem := settle n ws (mem p)\<rparr>
      | Ends i l \<Rightarrow> p\<lparr>mem := abandonedEnds i l (mem p)\<rparr>)"

definition run :: "(url \<Rightarrow> string) \<Rightarrow> proc \<Rightarrow> event list \<Rightarrow> proc" where
  "run hashUrl p es = foldl (deliver hashUrl) p es"

text \<open>The process when the loop is about to start on a work list.\<close>

definition started :: "state \<Rightarrow> url list \<Rightarrow> proc" where
  "started st us = \<lparr>mem = st, todo = us, inflight = None, loopDone = False, exitStatus = None\<rparr>"

text \<open>
  The schedule on which no signal arrives: the loop head and the outcome of each URL in
  turn, then the loop head that finds the list exhausted.
\<close>

fun undisturbed :: "(nat \<Rightarrow> world) \<Rightarrow> nat \<Rightarrow> nat \<Rightarrow> event list" where
  "undisturbed env k 0 = [LoopHead]"
| "undisturbed env k (Suc n) = LoopHead # Outcome (env k) # undisturbed env (Suc k) n"

section \<open>Example inputs\<close>

text \<open>
  Concrete inputs on which the theorems below are instantiated. \<open>exampleHash\<close> stands
  in for the MD5 digest.
\<close>

definition exampleHash :: "url \<Rightarrow> string" where
  "exampleHash u = ''md5-'' @ u"

definition exampleIndex :: index where
  "exampleIndex = [''http://a'' \<mapsto> PageArtifacts ''1.png'' ''1.html'' ''1.txt'']"

definition exampleLedger :: "failure list" where
  "exampleLedger = [\<lparr>url = ''http://b'', error = ''Processing timeout'', timestamp = ''t0''\<rparr>]"

definition exampleStartup :: startup where
  "exampleStartup =
     \<lparr>index_file = Parsed exampleIndex, failed_file = Parsed exampleLedger,
      urls_file = Inr [''http://a'', ''http://b''], mkdirs = None, launch = None,
      existing = {}\<rparr>"

definition exampleWorld :: world where
  "exampleWorld =
     \<lparr>now = ''t1'', probe = ContentType ''text/html; charset=utf-8'',
      reprobe = ContentType ''text/html; charset=utf-8'', download = Downloaded,
      extraction = Inr ''body'', saveText = None, capture = Fulfilled,
      flush = (Saved, Saved)\<rparr>"

definition exampleState :: state where
  "exampleState =
     \<lparr>urlMap = Map.empty, failedUrls = [], index_json = Missing, failed_json = Missing,
      unawaited = [], abandoned = [], files = {}, pages = 0, contextOpen = True,
      isShuttingDown = False, processed = 0, stderr = []\<rparr>"




section \<open>Auxiliary facts\<close>

lemma includes_str_iff: "includes_str s t \<longleftrightarrow> (\<exists>p q. s = p @ t @ q)"
proof (induction s)
  case Nil
  then show ?case by auto
next
  case (Cons c s)
  have "take (length t) (c # s) = t \<longleftrightarrow> (\<exists>q. c # s = t @ q)"
    by (metis append_eq_conv_conj append_take_drop_id)
  moreover have "(\<exists>p q. c # s = p @ t @ q) \<longleftrightarrow> (\<exists>q. c # s = t @ q) \<or> (\<exists>p q. s = p @ t @ q)"
  proof
    assume "\<exists>p q. c # s = p @ t @ q"
    then obtain p q where pq: "c # s = p @ t @ q" by blast
    show "(\<exists>q. c # s = t @ q) \<or> (\<exists>p q. s = p @ t @ q)"
    proof (cases p)
      case Nil
      with pq show ?thesis by auto
    next
      case (Cons a p')
      with pq have "s = p' @ t @ q" by simp
      then show ?thesis by blast
    qed
  next
    assume "(\<exists>q. c # s = t @ q) \<or> (\<exists>p q. s = p @ t @ q)"
    then show "\<exists>p q. c # s = p @ t @ q"
    proof
      assume "\<exists>q. c # s = t @ q"
      then show ?thesis by (metis append_Nil)
    next
      assume "\<exists>p q. s = p @ t @ q"
      then obtain p q where "s = p @ t @ q" by blast
      then have "c # s = (c # p) @ t @ q" by simp
      then show ?thesis by blast
    qed
  qed
  ultimately show ?case using Cons.IH by simp
qed

lemma checkContentType_fields:
  "checkContentType u p st = (ct, st1) \<Longrightarrow>
     urlMap st1 = urlMap st \<and> failedUrls st1 = failedUrls st \<and> index_json st1 = index_json st \<and>
     failed_json st1 = failed_json st \<and> unawaited st1 = unawaited st \<and> files st1 = files st \<and>
     pages st1 = pages st \<and> contextOpen st1 = contextOpen st \<and>
     isShuttingDown st1 = isShuttingDown st \<and> processed st1 = processed st \<and>
     abandoned st1 = abandoned st"
  by (auto simp: checkContentType_def split: probe.splits)

lemma checkContentType_typed:
  "checkContentType u p st = (ct, st1) \<Longrightarrow> ct \<noteq> [] \<Longrightarrow> st1 = st"
  by (auto simp: checkContentType_def split: probe.splits)

lemma afterWrites_fields:
  "urlMap (afterWrites ws m fs st) = urlMap st"
  "failedUrls (afterWrites ws m fs st) = failedUrls st"
  "unawaited (afterWrites ws m fs st) = unawaited st @ leftover ws m fs"
  "abandoned (afterWrites ws m fs st) = abandoned st"
  "files (afterWrites ws m fs st) = files st"
  "pages (afterWrites ws m fs st) = pages st"
  "contextOpen (afterWrites ws m fs st) = contextOpen st"
  "isShuttingDown (afterWrites ws m fs st) = isShuttingDown st"
  "processed (afterWrites ws m fs st) = processed st"
  "index_json (afterWrites ws m fs st) = written (fst ws) m (index_json st)"
  "failed_json (afterWrites ws m fs st) = written (snd ws) fs (failed_json st)"
  by (simp_all add: afterWrites_def Let_def split: option.splits)

lemma afterWrites_logged:
  "writeError ws = Some e \<Longrightarrow> ErrorUpdatingIndexFiles e \<in> set (stderr (afterWrites ws m fs st))"
  by (simp add: afterWrites_def Let_def)

lemma afterWrites_stderr: "set (stderr st) \<subseteq> set (stderr (afterWrites ws m fs st))"
  by (auto simp: afterWrites_def Let_def split: option.splits)

lemma updateIndexFiles_fields:
  "urlMap (updateIndexFiles ws st) = urlMap st"
  "failedUrls (updateIndexFiles ws st) = failedUrls st"
  "abandoned (updateIndexFiles ws st) = abandoned st"
  "files (updateIndexFiles ws st) = files st"
  "pages (updateIndexFiles ws st) = pages st"
  "contextOpen (updateIndexFiles ws st) = contextOpen st"
  "isShuttingDown (updateIndexFiles ws st) = isShuttingDown st"
  "processed (updateIndexFiles ws st) = processed st"
  by (simp_all add: updateIndexFiles_def afterWrites_fields)

lemma updateIndexFiles_disk:
  "index_json (updateIndexFiles ws st) = written (fst ws) (urlMap st) (index_json st)"
  "failed_json (updateIndexFiles ws st) = written (snd ws) (failedUrls st) (failed_json st)"
  "unawaited (updateIndexFiles ws st) = unawaited st @ leftover ws (urlMap st) (failedUrls st)"
  "writeError ws = Some m \<Longrightarrow> ErrorUpdatingIndexFiles m \<in> set (stderr (updateIndexFiles ws st))"
  by (simp_all add: updateIndexFiles_def afterWrites_fields afterWrites_logged)

lemma saved_both:
  "written Saved v old = Parsed v" "leftover (Saved, Saved) m fs = []"
  "writeError (Saved, Saved) = None"
  by (simp_all add: written_def leftover_def writeError_def rejection_def)

lemma recordFailure_fields:
  "urlMap (recordFailure u m t st) = urlMap st"
  "failedUrls (recordFailure u m t st) = failedUrls st @ [\<lparr>url = u, error = m, timestamp = t\<rparr>]"
  "index_json (recordFailure u m t st) = index_json st"
  "failed_json (recordFailure u m t st) = failed_json st"
  "unawaited (recordFailure u m t st) =
     unawaited st @ [Call (urlMap st) (failedUrls st @ [\<lparr>url = u, error = m, timestamp = t\<rparr>])]"
  "abandoned (recordFailure u m t st) = abandoned st"
  "files (recordFailure u m t st) = files st"
  "pages (recordFailure u m t st) = pages st"
  "contextOpen (recordFailure u m t st) = contextOpen st"
  "isShuttingDown (recordFailure u m t st) = isShuttingDown st"
  "processed (recordFailure u m t st) = processed st"
  "stderr (recordFailure u m t st) = stderr st"
  by (simp_all add: recordFailure_def)

lemma catchError_fields:
  "urlMap (catchError u m t st) = urlMap st"
  "failedUrls (catchError u m t st) =
     failedUrls st @ [\<lparr>url = u, error = (if m = ''Timeout'' then ''Processing timeout'' else m),
                       timestamp = t\<rparr>]"
  "index_json (catchError u m t st) = index_json st"
  "failed_json (catchError u m t st) = failed_json st"
  "unawaited (catchError u m t st) =
     unawaited st @ [Call (urlMap (catchError u m t st)) (failedUrls (catchError u m t st))]"
  "abandoned (catchError u m t st) = abandoned st"
  "files (catchError u m t st) = files st"
  "pages (catchError u m t st) = pages st"
  "contextOpen (catchError u m t st) = contextOpen st"
  "isShuttingDown (catchError u m t st) = isShuttingDown st"
  "processed (catchError u m t st) = processed st"
  by (simp_all add: catchError_def recordFailure_fields)

lemma processDocument_fields:
  "processDocument u fh w st = (r, st1) \<Longrightarrow>
     urlMap st1 = urlMap st \<and> failedUrls st1 = failedUrls st \<and> index_json st1 = index_json st \<and>
     failed_json st1 = failed_json st \<and> unawaited st1 = unawaited st \<and>
     pages st1 = pages st \<and> contextOpen st1 = contextOpen st \<and>
     isShuttingDown st1 = isShuttingDown st \<and> processed st1 = processed st \<and>
     abandoned st1 = abandoned st"
  by (auto simp: processDocument_def Let_def dest!: checkContentType_fields
      split: prod.splits download.splits sum.splits option.splits if_splits)

text \<open>What every way through the \<open>try\<close> block leaves alone.\<close>

lemma documentBranch_common:
  assumes "documentBranch u fh w st = (r, st')"
  shows "isShuttingDown st' = isShuttingDown st \<and> processed st' = processed st \<and>
         failedUrls st' = failedUrls st \<and> (\<forall>v. urlMap st v \<noteq> None \<longrightarrow> urlMap st' v \<noteq> None)"
proof (cases "processDocument u fh w st")
  case (Pair x st1)
  with assms processDocument_fields [OF Pair] show ?thesis
    by (cases x) (auto simp: documentBranch_def updateIndexFiles_fields)
qed

lemma capturePage_common:
  assumes "capturePage u fh w st = (r, st')"
  shows "isShuttingDown st' = isShuttingDown st \<and> processed st' = processed st \<and>
         failedUrls st' = failedUrls st \<and> (\<forall>v. urlMap st v \<noteq> None \<longrightarrow> urlMap st' v \<noteq> None)"
  using assms
  by (cases "capture w") (auto simp: capturePage_def Let_def updateIndexFiles_fields)

lemma pageBranch_common:
  assumes "pageBranch u fh w st = (r, st')"
  shows "isShuttingDown st' = isShuttingDown st \<and> processed st' = processed st \<and>
         failedUrls st' = failedUrls st \<and> (\<forall>v. urlMap st v \<noteq> None \<longrightarrow> urlMap st' v \<noteq> None)"
proof (cases "checkFilesExist (pageFiles fh) st")
  case True
  with assms show ?thesis
    by (auto simp: pageBranch_def updateIndexFiles_fields)
next
  case False
  with assms capturePage_common [of u fh w st r st'] show ?thesis
    by (simp add: pageBranch_def)
qed

text \<open>A branch that ends without throwing has awaited \<open>updateIndexFiles\<close>.\<close>

lemma documentBranch_done:
  assumes "documentBranch u fh w st = (None, st')"
  shows "index_json st' = written (fst (flush w)) (urlMap st') (index_json st) \<and>
         failed_json st' = written (snd (flush w)) (failedUrls st') (failed_json st) \<and>
         unawaited st' = unawaited st @ leftover (flush w) (urlMap st') (failedUrls st') \<and>
         urlMap st' u \<noteq> None \<and>
         (\<forall>m. writeError (flush w) = Some m \<longrightarrow> ErrorUpdatingIndexFiles m \<in> set (stderr st'))"
proof (cases "processDocument u fh w st")
  case (Pair r st1)
  with assms obtain a where a: "r = Inr a"
    and st': "st' = updateIndexFiles (flush w) (st1\<lparr>urlMap := (urlMap st1)(u \<mapsto> a)\<rparr>)"
    by (auto simp: documentBranch_def split: sum.splits)
  from processDocument_fields [OF Pair] show ?thesis
    by (simp add: st' updateIndexFiles_fields updateIndexFiles_disk)
qed

lemma documentBranch_thrown:
  assumes "documentBranch u fh w st = (Some m, st')"
  shows "index_json st' = index_json st \<and> failed_json st' = failed_json st \<and>
         unawaited st' = unawaited st \<and> failedUrls st' = failedUrls st \<and> urlMap st' = urlMap st"
proof (cases "processDocument u fh w st")
  case (Pair r st1)
  with assms have "st' = st1"
    by (auto simp: documentBranch_def split: sum.splits)
  with processDocument_fields [OF Pair] show ?thesis by simp
qed

lemma capturePage_done:
  assumes "capturePage u fh w st = (None, st')"
  shows "index_json st' = written (fst (flush w)) (urlMap st') (index_json st) \<and>
         failed_json st' = written (snd (flush w)) (failedUrls st') (failed_json st) \<and>
         unawaited st' = unawaited st @ leftover (flush w) (urlMap st') (failedUrls st') \<and>
         urlMap st' u \<noteq> None \<and>
         (\<forall>m. writeError (flush w) = Some m \<longrightarrow> ErrorUpdatingIndexFiles m \<in> set (stderr st'))"
proof (cases "capture w")
  case Fulfilled
  with assms show ?thesis
    by (auto simp: capturePage_def Let_def updateIndexFiles_fields updateIndexFiles_disk)
qed (use assms in \<open>simp_all add: capturePage_def\<close>)

lemma capturePage_thrown:
  assumes "capturePage u fh w st = (Some m, st')"
  shows "(\<exists>pre. unawaited st' = unawaited st @ pre) \<and>
         ((\<forall>e. capture w \<noteq> CloseFailed e) \<longrightarrow>
            unawaited st' = unawaited st \<and>
            index_json st' = index_json st \<and> failed_json st' = failed_json st)"
proof (cases "capture w")
  case (CloseFailed e)
  with assms show ?thesis
    by (auto simp: capturePage_def updateIndexFiles_disk)
qed (use assms in \<open>auto simp: capturePage_def Let_def\<close>)

lemma pageBranch_done:
  assumes "pageBranch u fh w st = (None, st')"
  shows "index_json st' = written (fst (flush w)) (urlMap st') (index_json st) \<and>
         failed_json st' = written (snd (flush w)) (failedUrls st') (failed_json st) \<and>
         unawaited st' = unawaited st @ leftover (flush w) (urlMap st') (failedUrls st') \<and>
         urlMap st' u \<noteq> None \<and>
         (\<forall>m. writeError (flush w) = Some m \<longrightarrow> ErrorUpdatingIndexFiles m \<in> set (stderr st'))"
proof (cases "checkFilesExist (pageFiles fh) st")
  case True
  with assms show ?thesis
    by (auto simp: pageBranch_def updateIndexFiles_fields updateIndexFiles_disk)
next
  case False
  with assms show ?thesis
    by (simp add: pageBranch_def capturePage_done)
qed

lemma pageBranch_thrown:
  assumes "pageBranch u fh w st = (Some m, st')"
  shows "(\<exists>pre. unawaited st' = unawaited st @ pre) \<and>
         ((\<forall>e. capture w \<noteq> CloseFailed e) \<longrightarrow>
            unawaited st' = unawaited st \<and>
            index_json st' = index_json st \<and> failed_json st' = failed_json st)"
proof (cases "checkFilesExist (pageFiles fh) st")
  case True
  with assms show ?thesis by (simp add: pageBranch_def)
next
  case False
  with assms show ?thesis
    by (simp add: pageBranch_def capturePage_thrown)
qed

text \<open>The three ways the \<open>try\<close> block ends.\<close>

lemma tryBlock_cases:
  assumes "tryBlock u fh w st = (r, st')"
  obtains
    (flushed) "r = None"
      "index_json st' = written (fst (flush w)) (urlMap st') (index_json st)"
      "failed_json st' = written (snd (flush w)) (failedUrls st') (failed_json st)"
      "unawaited st' = unawaited st @ leftover (flush w) (urlMap st') (failedUrls st')"
      "failedUrls st' = failedUrls st" "urlMap st' u \<noteq> None"
      "\<forall>m. writeError (flush w) = Some m \<longrightarrow> ErrorUpdatingIndexFiles m \<in> set (stderr st')"
  | (unsupported) ct st1 where "r = None" "checkContentType u (probe w) st = (ct, st1)"
      "\<not> includes_str ct ''pdf''" "\<not> includes_str ct ''word''" "\<not> includes_str ct ''html''"
      "st' = recordFailure u (''Unsupported content type: '' @ ct) (now w) st1"
  | (thrown) m where "r = Some m"
      "\<exists>pre. unawaited st' = unawaited st @ pre" "failedUrls st' = failedUrls st"
      "(\<forall>e. capture w \<noteq> CloseFailed e) \<longrightarrow>
         unawaited st' = unawaited st \<and>
         index_json st' = index_json st \<and> failed_json st' = failed_json st"
proof (cases "checkContentType u (probe w) st")
  case (Pair ct st1)
  note f = checkContentType_fields [OF Pair]
  consider (doc) "includes_str ct ''pdf'' \<or> includes_str ct ''word''"
    | (other) "\<not> includes_str ct ''pdf''" "\<not> includes_str ct ''word''" "\<not> includes_str ct ''html''"
    | (page) "\<not> includes_str ct ''pdf''" "\<not> includes_str ct ''word''" "includes_str ct ''html''"
    by blast
  then show ?thesis
  proof cases
    case doc
    with assms Pair have d: "documentBranch u fh w st1 = (r, st')"
      by (simp add: tryBlock_def)
    show ?thesis
    proof (cases r)
      case None
      with d documentBranch_done [of u fh w st1 st'] documentBranch_common [OF d] f show ?thesis
        by (intro flushed) simp_all
    next
      case (Some m)
      with d documentBranch_thrown [of u fh w st1 m st'] f show ?thesis
        by (intro thrown [of m]) simp_all
    qed
  next
    case other
    with assms Pair have "r = None"
      "st' = recordFailure u (''Unsupported content type: '' @ ct) (now w) st1"
      by (simp_all add: tryBlock_def)
    with Pair other show ?thesis by (intro unsupported)
  next
    case page
    with assms Pair have d: "pageBranch u fh w st1 = (r, st')"
      by (simp add: tryBlock_def)
    show ?thesis
    proof (cases r)
      case None
      with d pageBranch_done [of u fh w st1 st'] pageBranch_common [OF d] f show ?thesis
        by (intro flushed) simp_all
    next
      case (Some m)
      with d pageBranch_thrown [of u fh w st1 m st'] pageBranch_common [OF d] f show ?thesis
        by (intro thrown [of m]) simp_all
    qed
  qed
qed

lemma tryBlock_common:
  assumes "tryBlock u fh w st = (r, st')"
  shows "isShuttingDown st' = isShuttingDown st \<and> processed st' = processed st \<and>
         (\<forall>v. urlMap st v \<noteq> None \<longrightarrow> urlMap st' v \<noteq> None)"
proof (cases "checkContentType u (probe w) st")
  case (Pair ct st1)
  note f = checkContentType_fields [OF Pair]
  consider (doc) "includes_str ct ''pdf'' \<or> includes_str ct ''word''"
    | (other) "\<not> includes_str ct ''pdf''" "\<not> includes_str ct ''word''" "\<not> includes_str ct ''html''"
    | (page) "\<not> includes_str ct ''pdf''" "\<not> includes_str ct ''word''" "includes_str ct ''html''"
    by blast
  then show ?thesis
  proof cases
    case doc
    with assms Pair have "documentBranch u fh w st1 = (r, st')"
      by (simp add: tryBlock_def)
    from documentBranch_common [OF this] f show ?thesis by simp
  next
    case other
    with assms Pair have "st' = recordFailure u (''Unsupported content type: '' @ ct) (now w) st1"
      by (simp add: tryBlock_def)
    with f show ?thesis by (simp add: recordFailure_fields)
  next
    case page
    with assms Pair have "pageBranch u fh w st1 = (r, st')"
      by (simp add: tryBlock_def)
    from pageBranch_common [OF this] f show ?thesis by simp
  qed
qed

lemma tryBlock_thrown:
  "tryBlock u fh w st = (Some m, st1) \<Longrightarrow> failedUrls st1 = failedUrls st"
  by (erule tryBlock_cases) simp_all

text \<open>One step of the loop.\<close>

lemma processUrl_common:
  "isShuttingDown (processUrl h u w st) = isShuttingDown st \<and>
   processed (processUrl h u w st) = processed st \<and>
   (\<forall>v. urlMap st v \<noteq> None \<longrightarrow> urlMap (processUrl h u w st) v \<noteq> None)"
proof (cases "tryBlock u (h u) w st")
  case (Pair r st1)
  from tryBlock_common [OF Pair] Pair show ?thesis
    by (cases r) (simp_all add: processUrl_def catchError_fields)
qed

lemma processUrl_flag: "isShuttingDown (processUrl h u w st) = isShuttingDown st"
  by (simp add: processUrl_common)

lemma processUrl_processed: "processed (processUrl h u w st) = processed st"
  by (simp add: processUrl_common)

lemma processUrl_thrown:
  assumes "tryBlock u (h u) w st = (Some m, st1)"
  shows "failedUrls (processUrl h u w st) =
           failedUrls st @ [\<lparr>url = u, error = (if m = ''Timeout'' then ''Processing timeout'' else m),
                             timestamp = now w\<rparr>]"
  using assms tryBlock_thrown [OF assms]
  by (simp add: processUrl_def catchError_fields)

lemma processUrl_outcome:
  "(failedUrls (processUrl h u w st) = failedUrls st \<and> urlMap (processUrl h u w st) u \<noteq> None) \<or>
   (\<exists>e. failedUrls (processUrl h u w st) = failedUrls st @ [\<lparr>url = u, error = e, timestamp = now w\<rparr>])"
proof -
  obtain r st1 where t: "tryBlock u (h u) w st = (r, st1)"
    by (cases "tryBlock u (h u) w st")
  from t show ?thesis
  proof (cases rule: tryBlock_cases)
    case flushed
    with t show ?thesis by (simp add: processUrl_def)
  next
    case (unsupported ct st0)
    with t checkContentType_fields [OF unsupported(2)] show ?thesis
      by (simp add: processUrl_def recordFailure_fields)
  next
    case (thrown m)
    with t show ?thesis by (simp add: processUrl_def catchError_fields)
  qed
qed

lemma processUrl_ledger:
  "failedUrls (processUrl h u w st) = failedUrls st \<or>
   (\<exists>e. failedUrls (processUrl h u w st) = failedUrls st @ [\<lparr>url = u, error = e, timestamp = now w\<rparr>])"
  using processUrl_outcome [of h u w st] by blast


text \<open>The loop.\<close>

lemma loop_flag: "isShuttingDown (loop h env k st us) = isShuttingDown st"
  by (induction us arbitrary: k st) (simp_all add: processUrl_flag)

lemma loop_processed:
  "\<not> isShuttingDown st \<Longrightarrow> processed (loop h env k st us) = processed st + length us"
  by (induction us arbitrary: k st) (simp_all add: processUrl_flag processUrl_processed)

lemma loop_stopped: "isShuttingDown st \<Longrightarrow> loop h env k st us = st"
  by (cases us) simp_all

lemma loop_next:
  "\<not> isShuttingDown st \<Longrightarrow>
     loop h env k st (u # us)
       = loop h env (Suc k) (processUrl h u (env k) (st\<lparr>processed := Suc (processed st)\<rparr>)) us"
  by simp

lemma loop_grows:
  "urlMap st v \<noteq> None \<Longrightarrow> urlMap (loop h env k st us) v \<noteq> None"
proof (induction us arbitrary: k st)
  case Nil
  then show ?case by simp
next
  case (Cons u us)
  let ?st1 = "processUrl h u (env k) (st\<lparr>processed := Suc (processed st)\<rparr>)"
  have "urlMap ?st1 v \<noteq> None"
    using Cons.prems processUrl_common [of h u "env k" "st\<lparr>processed := Suc (processed st)\<rparr>"]
    by simp
  from Cons.IH [OF this] Cons.prems show ?case by simp
qed

text \<open>
  With the flag unset every URL of the list gets its outcome: the ledger the loop leaves
  is the ledger it found followed by the new records, each for a URL of the list, and
  every URL of the list is a key of the index or has one of the new records.
\<close>

lemma loop_outcomes:
  "\<not> isShuttingDown st \<Longrightarrow>
     \<exists>new. failedUrls (loop h env k st us) = failedUrls st @ new \<and> url ` set new \<subseteq> set us \<and>
           (\<forall>u \<in> set us. urlMap (loop h env k st us) u \<noteq> None \<or> u \<in> url ` set new)"
proof (induction us arbitrary: k st)
  case Nil
  then show ?case by simp
next
  case (Cons u us)
  let ?st0 = "st\<lparr>processed := Suc (processed st)\<rparr>"
  let ?st1 = "processUrl h u (env k) ?st0"
  have flag: "\<not> isShuttingDown ?st1"
    using Cons.prems by (simp add: processUrl_flag)
  from Cons.IH [OF flag, of "Suc k"] obtain new
    where new: "failedUrls (loop h env (Suc k) ?st1 us) = failedUrls ?st1 @ new"
      "url ` set new \<subseteq> set us"
      "\<forall>v \<in> set us. urlMap (loop h env (Suc k) ?st1 us) v \<noteq> None \<or> v \<in> url ` set new"
    by blast
  from processUrl_outcome [of h u "env k" ?st0]
  obtain one where one: "failedUrls ?st1 = failedUrls st @ one" "url ` set one \<subseteq> {u}"
    "urlMap ?st1 u \<noteq> None \<or> u \<in> url ` set one"
    by auto
  have here: "urlMap (loop h env (Suc k) ?st1 us) u \<noteq> None \<or> u \<in> url ` set (one @ new)"
    using one(3) loop_grows [of ?st1 u h env "Suc k" us] by auto
  have "failedUrls (loop h env k st (u # us)) = failedUrls st @ (one @ new)"
    using Cons.prems new(1) one(1) by simp
  moreover have "url ` set (one @ new) \<subseteq> set (u # us)"
    using new(2) one(2) by auto
  moreover have "\<forall>v \<in> set (u # us).
      urlMap (loop h env k st (u # us)) v \<noteq> None \<or> v \<in> url ` set (one @ new)"
    using Cons.prems new(3) here by auto
  ultimately show ?case by blast
qed

lemma loop_ledger:
  "\<exists>new. failedUrls (loop h env k st us) = failedUrls st @ new \<and> url ` set new \<subseteq> set us"
proof (cases "isShuttingDown st")
  case True
  then show ?thesis by (simp add: loop_stopped)
next
  case False
  from loop_outcomes [OF this, of h env k us] show ?thesis by blast
qed

lemma initial_fields:
  "urlMap (initial su) = fst (loadExistingData (index_file su) (failed_file su))"
  "failedUrls (initial su) = fst (snd (loadExistingData (index_file su) (failed_file su)))"
  "stderr (initial su) = snd (snd (loadExistingData (index_file su) (failed_file su)))"
  "isShuttingDown (initial su) = False"
  "processed (initial su) = 0"
  "index_json (initial su) = index_file su"
  "failed_json (initial su) = failed_file su"
  by (simp_all add: initial_def split: prod.splits)

text \<open>The filter.\<close>

lemma truthyAt_key: "m u \<noteq> None \<Longrightarrow> truthyAt m u"
  by (auto simp: truthyAt_def)

lemma truthyAt_other: "u \<notin> set inheritedNames \<Longrightarrow> truthyAt m u \<longleftrightarrow> u \<in> dom m"
  by (auto simp: truthyAt_def split: option.splits)


text \<open>What is left in flight settles; an abandoned capture ends.\<close>

lemma settle_fields:
  "urlMap (settle n ws st) = urlMap st"
  "failedUrls (settle n ws st) = failedUrls st"
  "abandoned (settle n ws st) = abandoned st"
  "files (settle n ws st) = files st"
  "pages (settle n ws st) = pages st"
  "contextOpen (settle n ws st) = contextOpen st"
  "isShuttingDown (settle n ws st) = isShuttingDown st"
  "processed (settle n ws st) = processed st"
  by (simp_all add: settle_def Let_def afterWrites_fields split: pending.splits)

lemma settle_call:
  assumes "n < length (unawaited st)" "unawaited st ! n = Call m fs"
  shows "settle n ws st = afterWrites ws m fs (st\<lparr>unawaited := without n (unawaited st)\<rparr>)"
  using assms by (simp add: settle_def)


text \<open>
  A URL whose capture lost the race is in the ledger; when the abandoned capture then
  runs to its end, the URL is in the index as well.
\<close>

lemma abandoned_capture_lands:
  assumes "abandoned st = [(u, fh)]"
  shows "urlMap (abandonedEnds 0 (LateFulfilled ws) st) u = Some (pageArtifacts fh) \<and>
         failedUrls (abandonedEnds 0 (LateFulfilled ws) st) = failedUrls st \<and>
         index_json (abandonedEnds 0 (LateFulfilled ws) st)
           = written (fst ws) ((urlMap st)(u \<mapsto> pageArtifacts fh)) (index_json st)"
  using assms
  by (simp add: abandonedEnds_def Let_def updateIndexFiles_fields updateIndexFiles_disk)

text \<open>The document branch and its files.\<close>

lemma extension_cases:
  "(includes_str ct ''pdf'' \<longrightarrow> extension ct = ''.pdf'') \<and>
   (\<not> includes_str ct ''pdf'' \<and> includes_str ct ''word'' \<longrightarrow> extension ct = ''.docx'') \<and>
   (\<not> includes_str ct ''pdf'' \<and> \<not> includes_str ct ''word'' \<longrightarrow> extension ct = ''.bin'')"
  by (simp add: extension_def)

lemma processDocument_saved:
  assumes "checkContentType u (reprobe w) st = (ct2, st2)"
  shows "(download w = Downloaded \<longrightarrow>
            path_join docDir (fh @ extension ct2) \<in> files (snd (processDocument u fh w st))) \<and>
         (\<forall>a st3. processDocument u fh w st = (Inr a, st3) \<longrightarrow>
            a = DocumentArtifacts (fh @ extension ct2) (fh @ ''.txt''))"
  using assms
  by (auto simp: processDocument_def Let_def
      split: download.splits sum.splits option.splits)

lemma documentBranch_files:
  assumes "documentBranch u fh w st = (r, st')"
  shows "files st' = files (snd (processDocument u fh w st)) \<and> pages st' = pages st"
proof (cases "processDocument u fh w st")
  case (Pair x st1)
  with assms processDocument_fields [OF Pair] show ?thesis
    by (cases x) (auto simp: documentBranch_def updateIndexFiles_fields)
qed

lemma documentBranch_entry:
  assumes "documentBranch u fh w st = (None, st')"
  shows "\<exists>st3. processDocument u fh w st = (Inr (the (urlMap st' u)), st3) \<and> urlMap st' u \<noteq> None"
proof (cases "processDocument u fh w st")
  case (Pair x st1)
  with assms show ?thesis
    by (cases x) (auto simp: documentBranch_def updateIndexFiles_fields)
qed


lemma run_Nil: "run h p [] = p"
  by (simp add: run_def)

lemma run_Cons: "run h p (e # es) = run h (deliver h p e) es"
  by (simp add: run_def)






text \<open>
  On the schedule where nothing comes between the steps of the loop the process runs
  the loop of \<open>takeScreenshots\<close>.
\<close>

lemma run_undisturbed:
  "\<not> isShuttingDown st \<Longrightarrow>
     run h (started st us) (undisturbed env k (length us))
       = \<lparr>mem = finallyBlock (loop h env k st us), todo = [], inflight = None,
          loopDone = True, exitStatus = None\<rparr>"
proof (induction us arbitrary: st k)
  case Nil
  then show ?case by (simp add: run_Cons run_Nil deliver_def started_def)
next
  case (Cons u us)
  let ?st = "processUrl h u (env k) (st\<lparr>processed := Suc (processed st)\<rparr>)"
  have "deliver h (deliver h (started st (u # us)) LoopHead) (Outcome (env k)) = started ?st us"
    using Cons.prems by (simp add: deliver_def started_def)
  moreover have "\<not> isShuttingDown ?st"
    using Cons.prems by (simp add: processUrl_flag)
  ultimately show ?case
    using Cons.IH [of ?st "Suc k"] Cons.prems by (simp add: run_Cons)
qed


section \<open>A run over an index that is complete\<close>

text \<open>
  Claim C8. When every URL of the input list is a key of the loaded index and the setup
  succeeds, the work list is empty, the run starts no URL, and it ends with the index
  (and the ledger and the index file) it loaded.
\<close>

theorem idempotent_run:
  assumes "urls_file su = Inr urls"
    and "set urls \<subseteq> dom (urlMap (initial su))"
    and "mkdirs su = None" and "launch su = None"
  shows "workList su = [] \<and>
         (\<exists>st. takeScreenshots h su env = Inr st \<and> processed st = 0 \<and>
               urlMap st = urlMap (initial su) \<and> failedUrls st = failedUrls (initial su) \<and>
               index_json st = index_file su)"
proof -
  have "workList su = urlsToProcess urls (urlMap (initial su))"
    using assms(1) by (simp add: workList_def initial_fields)
  also have "\<dots> = []"
    using assms(2) by (auto simp: urlsToProcess_def filter_empty_conv intro: truthyAt_key)
  finally have wl: "workList su = []" .
  have "takeScreenshots h su env = Inr (finallyBlock (initial su))"
    using assms wl by (simp add: takeScreenshots_def)
  then show ?thesis
    using wl by (simp add: finallyBlock_def initial_fields)
qed

theorem idempotent_run_witness:
  "workList (exampleStartup\<lparr>urls_file := Inr [''http://a'', ''http://a'']\<rparr>) = [] \<and>
   (\<exists>st. takeScreenshots exampleHash (exampleStartup\<lparr>urls_file := Inr [''http://a'', ''http://a'']\<rparr>)
            (\<lambda>k. exampleWorld) = Inr st \<and>
         processed st = 0 \<and> urlMap st = exampleIndex \<and> failedUrls st = exampleLedger \<and>
         index_json st = Parsed exampleIndex)"
  using idempotent_run [of "exampleStartup\<lparr>urls_file := Inr [''http://a'', ''http://a'']\<rparr>"
      "[''http://a'', ''http://a'']" exampleHash "\<lambda>k. exampleWorld"]
  by (simp add: exampleStartup_def exampleIndex_def initial_fields loadExistingData_def)

section \<open>Artifacts that are already there\<close>

text \<open>
  Claim C7. For a URL that is dispatched to the page branch (its content type contains
  \<open>html\<close> and neither \<open>pdf\<close> nor \<open>word\<close>), if the three files
  \<open>out/screenshots/<hash>.png\<close>, \<open>out/html/<hash>.html\<close> and \<open>out/text/<hash>.txt\<close>
  exist, the step is a success: the index maps the URL to the three file names and
  \<open>updateIndexFiles\<close> is awaited. No page is opened and the capture is never consulted:
  the result is the same whatever the capture would have done.
\<close>

theorem skip_on_exists:
  assumes probe: "checkContentType u (probe w) st = (ct, st1)"
    and html: "includes_str ct ''html''"
    and nodoc: "\<not> includes_str ct ''pdf''" "\<not> includes_str ct ''word''"
    and ex: "\<forall>p \<in> set (pageFiles (h u)). p \<in> files st"
  shows "processUrl h u w st =
           updateIndexFiles (flush w)
             (st\<lparr>urlMap := (urlMap st)(u \<mapsto> PageArtifacts (h u @ ''.png'') (h u @ ''.html'')
                                       (h u @ ''.txt''))\<rparr>) \<and>
         urlMap (processUrl h u w st) u
           = Some (PageArtifacts (h u @ ''.png'') (h u @ ''.html'') (h u @ ''.txt'')) \<and>
         pages (processUrl h u w st) = pages st \<and>
         files (processUrl h u w st) = files st \<and>
         failedUrls (processUrl h u w st) = failedUrls st \<and>
         processUrl h u (w\<lparr>capture := c\<rparr>) st = processUrl h u w st \<and>
         (flush w = (Saved, Saved) \<longrightarrow>
            index_json (processUrl h u w st) = Parsed (urlMap (processUrl h u w st)) \<and>
            failed_json (processUrl h u w st) = Parsed (failedUrls (processUrl h u w st)))"
proof -
  have "ct \<noteq> []" using html by auto
  with probe have st1: "st1 = st" by (rule checkContentType_typed)
  have exists: "checkFilesExist (pageFiles (h u)) st"
    using ex by (simp add: checkFilesExist_def list_all_iff)
  have eq: "processUrl h u w' st =
           updateIndexFiles (flush w')
             (st\<lparr>urlMap := (urlMap st)(u \<mapsto> PageArtifacts (h u @ ''.png'') (h u @ ''.html'')
                                       (h u @ ''.txt''))\<rparr>)"
    if "probe w' = probe w" for w'
    using probe st1 html nodoc exists that
    by (simp add: processUrl_def tryBlock_def pageBranch_def pageArtifacts_def)
  have "processUrl h u (w\<lparr>capture := c\<rparr>) st = processUrl h u w st"
    using eq [of w] eq [of "w\<lparr>capture := c\<rparr>"] by simp
  moreover have "flush w = (Saved, Saved) \<longrightarrow>
            index_json (processUrl h u w st) = Parsed (urlMap (processUrl h u w st)) \<and>
            failed_json (processUrl h u w st) = Parsed (failedUrls (processUrl h u w st))"
    using eq [of w] by (simp add: updateIndexFiles_fields updateIndexFiles_disk saved_both)
  ultimately show ?thesis
    using eq [of w] by (simp add: updateIndexFiles_fields)
qed

theorem skip_on_exists_witness:
  "urlMap (processUrl exampleHash ''http://a'' (exampleWorld\<lparr>capture := TimerFirst 0\<rparr>)
             (exampleState\<lparr>files := set (pageFiles (exampleHash ''http://a''))\<rparr>)) ''http://a''
     = Some (PageArtifacts ''md5-http://a.png'' ''md5-http://a.html'' ''md5-http://a.txt'') \<and>
   pages (processUrl exampleHash ''http://a'' (exampleWorld\<lparr>capture := TimerFirst 0\<rparr>)
             (exampleState\<lparr>files := set (pageFiles (exampleHash ''http://a''))\<rparr>)) = 0 \<and>
   failedUrls (processUrl exampleHash ''http://a'' (exampleWorld\<lparr>capture := TimerFirst 0\<rparr>)
             (exampleState\<lparr>files := set (pageFiles (exampleHash ''http://a''))\<rparr>)) = [] \<and>
   index_json (processUrl exampleHash ''http://a'' (exampleWorld\<lparr>capture := TimerFirst 0\<rparr>)
             (exampleState\<lparr>files := set (pageFiles (exampleHash ''http://a''))\<rparr>))
     = Parsed [''http://a'' \<mapsto>
         PageArtifacts ''md5-http://a.png'' ''md5-http://a.html'' ''md5-http://a.txt'']"
  using skip_on_exists [of "''http://a''" "exampleWorld\<lparr>capture := TimerFirst 0\<rparr>"
      "exampleState\<lparr>files := set (pageFiles (exampleHash ''http://a''))\<rparr>"
      "''text/html; charset=utf-8''"
      "exampleState\<lparr>files := set (pageFiles (exampleHash ''http://a''))\<rparr>"
      exampleHash Fulfilled]
  by (simp add: exampleWorld_def exampleState_def exampleHash_def checkContentType_def
      toLowerCase_def lowerChar_def updateIndexFiles_fields updateIndexFiles_disk saved_both)

section \<open>A second probe that disagrees\<close>

text \<open>
  Claim C10. \<open>processDocument\<close> probes again. When the dispatch probe contained
  \<open>pdf\<close> or \<open>word\<close> and the second answer contains neither (the empty string of a
  failed probe, for one), the body is still downloaded, to \<open>out/doc/<hash>.bin\<close>, and
  only then is \<open>Unsupported document type\<close> thrown: the URL is recorded as failed, the
  index is as it was, and the \<open>.bin\<close> file is on disk.
\<close>

theorem reprobe_without_type:
  assumes probe: "checkContentType u (probe w) st = (ct, st1)"
    and doc: "includes_str ct ''pdf'' \<or> includes_str ct ''word''"
    and reprobe: "checkContentType u (reprobe w) st1 = (ct2, st2)"
    and neither: "\<not> includes_str ct2 ''pdf''" "\<not> includes_str ct2 ''word''"
    and got: "download w = Downloaded"
  shows "files (processUrl h u w st) = insert (path_join docDir (h u @ ''.bin'')) (files st) \<and>
         urlMap (processUrl h u w st) = urlMap st \<and>
         failedUrls (processUrl h u w st)
           = failedUrls st @ [\<lparr>url = u, error = ''Unsupported document type: '' @ ct2,
                                timestamp = now w\<rparr>] \<and>
         index_json (processUrl h u w st) = index_json st \<and>
         failed_json (processUrl h u w st) = failed_json st"
proof -
  have doc1: "processDocument u (h u) w st1
        = (Inl (''Unsupported document type: '' @ ct2),
           st2\<lparr>files := insert (path_join docDir (h u @ ''.bin'')) (files st2)\<rparr>)"
    using reprobe neither got by (simp add: processDocument_def extension_def)
  have "ct \<noteq> []" using doc by auto
  with probe have st1: "st1 = st" by (rule checkContentType_typed)
  have p: "processUrl h u w st
        = catchError u (''Unsupported document type: '' @ ct2) (now w)
            (st2\<lparr>files := insert (path_join docDir (h u @ ''.bin'')) (files st2)\<rparr>)"
    using probe doc doc1 by (simp add: processUrl_def tryBlock_def documentBranch_def)
  show ?thesis
    using checkContentType_fields [OF reprobe] st1
    by (simp add: p catchError_fields)
qed

theorem reprobe_without_type_witness:
  "files (processUrl exampleHash ''http://a''
            (exampleWorld\<lparr>probe := ContentType ''application/pdf'', reprobe := ProbeError ''fetch failed''\<rparr>)
            exampleState) = {''out/doc/md5-http://a.bin''} \<and>
   urlMap (processUrl exampleHash ''http://a''
            (exampleWorld\<lparr>probe := ContentType ''application/pdf'', reprobe := ProbeError ''fetch failed''\<rparr>)
            exampleState) = Map.empty \<and>
   failedUrls (processUrl exampleHash ''http://a''
            (exampleWorld\<lparr>probe := ContentType ''application/pdf'', reprobe := ProbeError ''fetch failed''\<rparr>)
            exampleState)
     = [\<lparr>url = ''http://a'', error = ''Unsupported document type: '', timestamp = ''t1''\<rparr>]"
  using reprobe_without_type [of "''http://a''"
      "exampleWorld\<lparr>probe := ContentType ''application/pdf'', reprobe := ProbeError ''fetch failed''\<rparr>"
      exampleState "''application/pdf''" exampleState "''''"
      "exampleState\<lparr>stderr := [ErrorCheckingContentType ''http://a'' ''fetch failed'']\<rparr>"
      exampleHash]
  by (simp add: exampleWorld_def exampleState_def exampleHash_def checkContentType_def
      toLowerCase_def lowerChar_def path_join_def docDir_def)

section \<open>The page after a timeout\<close>

text \<open>
  When the timer wins the race, or the capture rejects, control goes from the race to
  the \<open>catch\<close>; \<open>page.close()\<close> is skipped and the page stays open until the context is
  closed at the end of the run. Only the fulfilled race closes its page.
\<close>

lemma timer_first_leaves_page:
  assumes "checkContentType u (probe w) st = (ct, st1)"
    and "includes_str ct ''html''" "\<not> includes_str ct ''pdf''" "\<not> includes_str ct ''word''"
    and "\<not> checkFilesExist (pageFiles (h u)) st"
    and "capture w = TimerFirst n"
  shows "pages (processUrl h u w st) = Suc (pages st) \<and>
         failedUrls (processUrl h u w st)
           = failedUrls st @ [\<lparr>url = u, error = ''Processing timeout'', timestamp = now w\<rparr>]"
proof -
  have "ct \<noteq> []" using assms(2) by auto
  with assms(1) have "st1 = st" by (rule checkContentType_typed)
  with assms show ?thesis
    by (simp add: processUrl_def tryBlock_def pageBranch_def capturePage_def catchError_fields)
qed

lemma fulfilled_closes_page:
  assumes "checkContentType u (probe w) st = (ct, st1)"
    and "includes_str ct ''html''" "\<not> includes_str ct ''pdf''" "\<not> includes_str ct ''word''"
    and "\<not> checkFilesExist (pageFiles (h u)) st"
    and "capture w = Fulfilled"
  shows "pages (processUrl h u w st) = pages st"
proof -
  have "ct \<noteq> []" using assms(2) by auto
  with assms(1) have "st1 = st" by (rule checkContentType_typed)
  with assms show ?thesis
    by (simp add: processUrl_def tryBlock_def pageBranch_def capturePage_def Let_def
        updateIndexFiles_fields)
qed

text \<open>
  Claim C3. On a page URL whose capture loses the race against the timer, the failure
  \<open>Processing timeout\<close> is recorded and the loop goes on, but the page is not closed:
  one page is open after the step, as after a capture that rejects, and none after a
  capture that succeeds.
\<close>

theorem timeout_leaves_page_open:
  "pages (processUrl exampleHash ''http://a'' (exampleWorld\<lparr>capture := TimerFirst 0\<rparr>) exampleState)
     = 1 \<and>
   failedUrls (processUrl exampleHash ''http://a'' (exampleWorld\<lparr>capture := TimerFirst 0\<rparr>)
      exampleState)
     = [\<lparr>url = ''http://a'', error = ''Processing timeout'', timestamp = ''t1''\<rparr>] \<and>
   pages (processUrl exampleHash ''http://a''
      (exampleWorld\<lparr>capture := Rejected 0 ''net::ERR_NAME_NOT_RESOLVED''\<rparr>) exampleState) = 1 \<and>
   pages (processUrl exampleHash ''http://a'' exampleWorld exampleState) = 0"
  by (simp add: exampleWorld_def exampleState_def exampleHash_def processUrl_def tryBlock_def
      checkContentType_def toLowerCase_def lowerChar_def pageBranch_def checkFilesExist_def
      pageFiles_def capturePage_def catchError_def recordFailure_def updateIndexFiles_fields)

section \<open>Dispatch on the content type\<close>

text \<open>
  Claim C4, as the code has it. The dispatch tests the answer of the probe in a fixed
  order. An answer that contains \<open>pdf\<close> or \<open>word\<close> goes to the document branch, and no
  page is opened; the extension of the saved document comes from the probe that
  \<open>processDocument\<close> makes itself: \<open>.pdf\<close> when that answer contains \<open>pdf\<close>, \<open>.docx\<close>
  when it contains \<open>word\<close> and not \<open>pdf\<close>. An answer that contains \<open>html\<close> and neither
  \<open>pdf\<close> nor \<open>word\<close> goes to the page branch. Any other answer, the empty string of a
  failed probe among them, is recorded at once as \<open>Unsupported content type\<close>: no file
  is written, no page is opened and the index is untouched.
\<close>

theorem dispatch_by_content_type:
  assumes probe: "checkContentType u (probe w) st = (ct, st1)"
  shows "((\<exists>e. probe w = ProbeError e) \<longrightarrow> ct = []) \<and>
    (includes_str ct ''pdf'' \<or> includes_str ct ''word'' \<longrightarrow>
       tryBlock u (h u) w st = documentBranch u (h u) w st \<and>
       pages (processUrl h u w st) = pages st \<and>
       (\<forall>ct2 st2. checkContentType u (reprobe w) st = (ct2, st2) \<longrightarrow>
          (download w = Downloaded \<longrightarrow>
             path_join docDir (h u @ extension ct2) \<in> files (processUrl h u w st)) \<and>
          (failedUrls (processUrl h u w st) = failedUrls st \<longrightarrow>
             urlMap (processUrl h u w st) u
               = Some (DocumentArtifacts (h u @ extension ct2) (h u @ ''.txt''))) \<and>
          (includes_str ct2 ''pdf'' \<longrightarrow> extension ct2 = ''.pdf'') \<and>
          (\<not> includes_str ct2 ''pdf'' \<and> includes_str ct2 ''word'' \<longrightarrow> extension ct2 = ''.docx''))) \<and>
    (\<not> includes_str ct ''pdf'' \<and> \<not> includes_str ct ''word'' \<and> includes_str ct ''html'' \<longrightarrow>
       tryBlock u (h u) w st = pageBranch u (h u) w st) \<and>
    (\<not> includes_str ct ''pdf'' \<and> \<not> includes_str ct ''word'' \<and> \<not> includes_str ct ''html'' \<longrightarrow>
       processUrl h u w st = recordFailure u (''Unsupported content type: '' @ ct) (now w) st1 \<and>
       failedUrls (processUrl h u w st)
         = failedUrls st @ [\<lparr>url = u, error = ''Unsupported content type: '' @ ct,
                              timestamp = now w\<rparr>] \<and>
       urlMap (processUrl h u w st) = urlMap st \<and>
       files (processUrl h u w st) = files st \<and>
       pages (processUrl h u w st) = pages st)"
proof -
  have failed: "ct = []" if "\<exists>e. probe w = ProbeError e"
    using that probe by (auto simp: checkContentType_def)
  have typed: "st1 = st" if "ct \<noteq> []"
    using probe that by (rule checkContentType_typed)
  have doc: "tryBlock u (h u) w st = documentBranch u (h u) w st"
    if "includes_str ct ''pdf'' \<or> includes_str ct ''word''"
  proof -
    from that have "ct \<noteq> []" by auto
    with typed probe that show ?thesis by (simp add: tryBlock_def)
  qed
  have page: "tryBlock u (h u) w st = pageBranch u (h u) w st"
    if "\<not> includes_str ct ''pdf''" "\<not> includes_str ct ''word''" "includes_str ct ''html''"
  proof -
    from that have "ct \<noteq> []" by auto
    with typed probe that show ?thesis by (simp add: tryBlock_def)
  qed
  have other: "processUrl h u w st
        = recordFailure u (''Unsupported content type: '' @ ct) (now w) st1"
    if "\<not> includes_str ct ''pdf''" "\<not> includes_str ct ''word''" "\<not> includes_str ct ''html''"
    using probe that by (simp add: processUrl_def tryBlock_def)
  have docfacts: "pages (processUrl h u w st) = pages st \<and>
       (\<forall>ct2 st2. checkContentType u (reprobe w) st = (ct2, st2) \<longrightarrow>
          (download w = Downloaded \<longrightarrow>
             path_join docDir (h u @ extension ct2) \<in> files (processUrl h u w st)) \<and>
          (failedUrls (processUrl h u w st) = failedUrls st \<longrightarrow>
             urlMap (processUrl h u w st) u
               = Some (DocumentArtifacts (h u @ extension ct2) (h u @ ''.txt''))))"
    if d: "includes_str ct ''pdf'' \<or> includes_str ct ''word''"
  proof -
    obtain r st' where b: "documentBranch u (h u) w st = (r, st')"
      by (cases "documentBranch u (h u) w st")
    note fs = documentBranch_files [OF b]
    show ?thesis
    proof (cases r)
      case None
      with b doc [OF d] have p: "processUrl h u w st = st'"
        by (simp add: processUrl_def)
      from documentBranch_entry [of u "h u" w st st'] b None
      obtain st3 where e: "processDocument u (h u) w st = (Inr (the (urlMap st' u)), st3)"
        "urlMap st' u \<noteq> None" by blast
      show ?thesis
        using fs e processDocument_saved [of u w st _ _ "h u"]
        by (auto simp: p)
    next
      case (Some m)
      with b doc [OF d] have p: "processUrl h u w st = catchError u m (now w) st'"
        by (simp add: processUrl_def)
      show ?thesis
        using fs processDocument_saved [of u w st _ _ "h u"]
        by (auto simp: p catchError_fields documentBranch_thrown [OF b [unfolded Some]])
    qed
  qed
  show ?thesis
    using failed doc page other docfacts checkContentType_fields [OF probe]
      extension_cases
    by (simp add: recordFailure_fields)
qed

text \<open>
  Claim C4 as stated fails where two of the words occur, and where the two probes
  differ: an answer with \<open>word\<close> and \<open>pdf\<close> is saved as \<open>.pdf\<close>, an answer with \<open>html\<close>
  and \<open>pdf\<close> goes to the document branch, and a URL probed as \<open>application/pdf\<close> whose
  second probe says \<open>application/msword\<close> is saved as \<open>.docx\<close>.
\<close>

theorem dispatch_counterexample:
  "includes_str ''application/msword; name=report.pdf'' ''word'' \<and>
   urlMap (processUrl exampleHash ''http://a''
             (exampleWorld\<lparr>probe := ContentType ''application/msword; name=report.pdf'',
                           reprobe := ContentType ''application/msword; name=report.pdf''\<rparr>)
             exampleState) ''http://a''
     = Some (DocumentArtifacts ''md5-http://a.pdf'' ''md5-http://a.txt'') \<and>
   includes_str ''text/html; name=a.pdf'' ''html'' \<and>
   urlMap (processUrl exampleHash ''http://a''
             (exampleWorld\<lparr>probe := ContentType ''text/html; name=a.pdf'',
                           reprobe := ContentType ''text/html; name=a.pdf''\<rparr>)
             exampleState) ''http://a''
     = Some (DocumentArtifacts ''md5-http://a.pdf'' ''md5-http://a.txt'') \<and>
   includes_str ''application/pdf'' ''pdf'' \<and>
   urlMap (processUrl exampleHash ''http://a''
             (exampleWorld\<lparr>probe := ContentType ''application/pdf'',
                           reprobe := ContentType ''application/msword''\<rparr>)
             exampleState) ''http://a''
     = Some (DocumentArtifacts ''md5-http://a.docx'' ''md5-http://a.txt'')"
  by (simp add: exampleWorld_def exampleState_def exampleHash_def processUrl_def tryBlock_def
      documentBranch_def processDocument_def checkContentType_def toLowerCase_def lowerChar_def
      extension_def updateIndexFiles_fields)

theorem dispatch_by_content_type_witness:
  "''out/doc/md5-http://a.pdf''
     \<in> files (processUrl exampleHash ''http://a''
                (exampleWorld\<lparr>probe := ContentType ''application/pdf'',
                              reprobe := ContentType ''application/pdf''\<rparr>) exampleState) \<and>
   urlMap (processUrl exampleHash ''http://a''
             (exampleWorld\<lparr>probe := ContentType ''application/pdf'',
                           reprobe := ContentType ''application/pdf''\<rparr>) exampleState) ''http://a''
     = Some (DocumentArtifacts ''md5-http://a.pdf'' ''md5-http://a.txt'') \<and>
   tryBlock ''http://a'' (exampleHash ''http://a'') exampleWorld exampleState
     = pageBranch ''http://a'' (exampleHash ''http://a'') exampleWorld exampleState \<and>
   failedUrls (processUrl exampleHash ''http://a'' (exampleWorld\<lparr>probe := ProbeError ''fetch failed''\<rparr>)
                 exampleState)
     = [\<lparr>url = ''http://a'', error = ''Unsupported content type: '', timestamp = ''t1''\<rparr>] \<and>
   files (processUrl exampleHash ''http://a'' (exampleWorld\<lparr>probe := ProbeError ''fetch failed''\<rparr>)
            exampleState) = {} \<and>
   pages (processUrl exampleHash ''http://a'' (exampleWorld\<lparr>probe := ProbeError ''fetch failed''\<rparr>)
            exampleState) = 0"
proof -
  let ?pdf = "exampleWorld\<lparr>probe := ContentType ''application/pdf'',
                           reprobe := ContentType ''application/pdf''\<rparr>"
  let ?down = "exampleWorld\<lparr>probe := ProbeError ''fetch failed''\<rparr>"
  have probes:
    "checkContentType ''http://a'' (probe ?pdf) exampleState = (''application/pdf'', exampleState)"
    "checkContentType ''http://a'' (reprobe ?pdf) exampleState = (''application/pdf'', exampleState)"
    "checkContentType ''http://a'' (probe exampleWorld) exampleState
       = (''text/html; charset=utf-8'', exampleState)"
    "checkContentType ''http://a'' (probe ?down) exampleState
       = ('''', exampleState\<lparr>stderr := [ErrorCheckingContentType ''http://a'' ''fetch failed'']\<rparr>)"
    by (simp_all add: exampleWorld_def exampleState_def checkContentType_def toLowerCase_def
        lowerChar_def)
  have given: "download ?pdf = Downloaded" "now ?down = ''t1''" "failedUrls exampleState = []"
    "files exampleState = {}" "pages exampleState = 0"
    "exampleHash ''http://a'' = ''md5-http://a''"
    by (simp_all add: exampleWorld_def exampleState_def exampleHash_def)
  have ok: "failedUrls (processUrl exampleHash ''http://a'' ?pdf exampleState) = []"
    by (simp add: exampleWorld_def exampleState_def processUrl_def tryBlock_def
        documentBranch_def processDocument_def checkContentType_def toLowerCase_def
        lowerChar_def updateIndexFiles_fields)
  show ?thesis
    using dispatch_by_content_type [OF probes(1), of exampleHash]
      dispatch_by_content_type [OF probes(3), of exampleHash]
      dispatch_by_content_type [OF probes(4), of exampleHash]
      probes(2) given ok
    by (simp add: extension_def path_join_def docDir_def recordFailure_fields)
qed

section \<open>Shutdown\<close>




section \<open>The resume filter\<close>




section \<open>Persisted files that cannot be read\<close>





section \<open>Errors of one URL\<close>

text \<open>
  Claim C6, as the code has it. Every error thrown while one URL is processed is caught
  by the \<open>catch\<close> of that URL and becomes a record with the URL, a message and the time,
  pushed at the end of \<open>failedUrls\<close>. The message is the one of the error thrown (a
  capture that rejects, a download that fails), except that the \<open>Timeout\<close> of the timer
  is recorded as \<open>Processing timeout\<close>. An error of the probe is not thrown at all:
  \<open>checkContentType\<close> logs it and answers the empty string, and the URL is recorded with
  \<open>Unsupported content type: \<close> and no type. A step leaves the ledger as it was, with
  the URL now a key of the index, or adds exactly one record for the URL at its end,
  whatever the ledger already holds. The loop goes on: with the flag unset it passes
  from each URL to the next whatever the step did, it starts every URL of the list, the
  ledger it leaves is the ledger it found followed by the new records, every URL of the
  list is then a key of the index or has a new record, and a run that starts ends
  normally.
\<close>

theorem per_url_errors:
  "(tryBlock u (h u) w st = (Some m, st1) \<longrightarrow>
      failedUrls (processUrl h u w st) =
        failedUrls st @ [\<lparr>url = u, error = (if m = ''Timeout'' then ''Processing timeout'' else m),
                          timestamp = now w\<rparr>]) \<and>
   (checkContentType u (probe w) st = (ct, st0) \<and> includes_str ct ''html'' \<and>
    \<not> includes_str ct ''pdf'' \<and> \<not> includes_str ct ''word'' \<and>
    \<not> checkFilesExist (pageFiles (h u)) st \<longrightarrow>
      (capture w = Rejected n m \<longrightarrow>
         failedUrls (processUrl h u w st) =
           failedUrls st @ [\<lparr>url = u, error = (if m = ''Timeout'' then ''Processing timeout'' else m),
                             timestamp = now w\<rparr>]) \<and>
      (capture w = TimerFirst n \<longrightarrow>
         failedUrls (processUrl h u w st) =
           failedUrls st @ [\<lparr>url = u, error = ''Processing timeout'', timestamp = now w\<rparr>])) \<and>
   (checkContentType u (probe w) st = (ct, st0) \<and>
    (includes_str ct ''pdf'' \<or> includes_str ct ''word'') \<and> download w = FetchFailed m \<longrightarrow>
      failedUrls (processUrl h u w st) =
        failedUrls st @ [\<lparr>url = u, error = (if m = ''Timeout'' then ''Processing timeout'' else m),
                          timestamp = now w\<rparr>]) \<and>
   (probe w = ProbeError e \<longrightarrow>
      failedUrls (processUrl h u w st) =
        failedUrls st @ [\<lparr>url = u, error = ''Unsupported content type: '', timestamp = now w\<rparr>] \<and>
      ErrorCheckingContentType u e \<in> set (stderr (processUrl h u w st))) \<and>
   ((failedUrls (processUrl h u w st) = failedUrls st \<and> urlMap (processUrl h u w st) u \<noteq> None) \<or>
    (\<exists>x. failedUrls (processUrl h u w st)
            = failedUrls st @ [\<lparr>url = u, error = x, timestamp = now w\<rparr>])) \<and>
   (\<not> isShuttingDown st \<longrightarrow>
      loop h env k st (v # vs)
        = loop h env (Suc k) (processUrl h v (env k) (st\<lparr>processed := Suc (processed st)\<rparr>)) vs \<and>
      processed (loop h env k st vs) = processed st + length vs \<and>
      (\<exists>new. failedUrls (loop h env k st vs) = failedUrls st @ new \<and>
             url ` set new \<subseteq> set vs \<and>
             (\<forall>x \<in> set vs. urlMap (loop h env k st vs) x \<noteq> None \<or> x \<in> url ` set new))) \<and>
   (urls_file su = Inr urls \<and> mkdirs su = None \<and> launch su = None \<longrightarrow>
      (\<exists>end new. takeScreenshots h su env = Inr end \<and>
         processed end = length (workList su) \<and>
         failedUrls end = failedUrls (initial su) @ new \<and>
         url ` set new \<subseteq> set (workList su) \<and>
         (\<forall>x \<in> set (workList su). urlMap end x \<noteq> None \<or> x \<in> url ` set new)))"
proof -
  have page: "tryBlock u (h u) w st = capturePage u (h u) w st"
    if "checkContentType u (probe w) st = (ct, st0)" "includes_str ct ''html''"
      "\<not> includes_str ct ''pdf''" "\<not> includes_str ct ''word''"
      "\<not> checkFilesExist (pageFiles (h u)) st"
  proof -
    have "ct \<noteq> []" using that(2) by auto
    with that(1) have "st0 = st" by (rule checkContentType_typed)
    with that show ?thesis by (simp add: tryBlock_def pageBranch_def)
  qed
  have rejected: "failedUrls (processUrl h u w st) =
           failedUrls st @ [\<lparr>url = u, error = (if m = ''Timeout'' then ''Processing timeout'' else m),
                             timestamp = now w\<rparr>]"
    if "checkContentType u (probe w) st = (ct, st0)" "includes_str ct ''html''"
      "\<not> includes_str ct ''pdf''" "\<not> includes_str ct ''word''"
      "\<not> checkFilesExist (pageFiles (h u)) st" "capture w = Rejected n m"
  proof -
    have "tryBlock u (h u) w st
        = (Some m, st\<lparr>pages := Suc (pages st),
                       files := files st \<union> set (take n (pageFiles (h u)))\<rparr>)"
      using page [OF that(1-5)] that(6) by (simp add: capturePage_def)
    from processUrl_thrown [where h = h and u = u, OF this] show ?thesis .
  qed
  have timer: "failedUrls (processUrl h u w st) =
           failedUrls st @ [\<lparr>url = u, error = ''Processing timeout'', timestamp = now w\<rparr>]"
    if "checkContentType u (probe w) st = (ct, st0)" "includes_str ct ''html''"
      "\<not> includes_str ct ''pdf''" "\<not> includes_str ct ''word''"
      "\<not> checkFilesExist (pageFiles (h u)) st" "capture w = TimerFirst n"
  proof -
    have "tryBlock u (h u) w st
        = (Some ''Timeout'', st\<lparr>pages := Suc (pages st),
                       files := files st \<union> set (take n (pageFiles (h u))),
                       abandoned := abandoned st @ [(u, h u)]\<rparr>)"
      using page [OF that(1-5)] that(6) by (simp add: capturePage_def)
    from processUrl_thrown [where h = h and u = u, OF this] show ?thesis by simp
  qed
  have fetch: "failedUrls (processUrl h u w st) =
        failedUrls st @ [\<lparr>url = u, error = (if m = ''Timeout'' then ''Processing timeout'' else m),
                          timestamp = now w\<rparr>]"
    if "checkContentType u (probe w) st = (ct, st0)"
      "includes_str ct ''pdf'' \<or> includes_str ct ''word''" "download w = FetchFailed m"
  proof -
    have "ct \<noteq> []" using that(2) by auto
    with that(1) have "st0 = st" by (rule checkContentType_typed)
    with that have "\<exists>st2. tryBlock u (h u) w st = (Some m, st2)"
      by (simp add: tryBlock_def documentBranch_def processDocument_def split: prod.splits)
    then obtain st2 where "tryBlock u (h u) w st = (Some m, st2)" by blast
    from processUrl_thrown [where h = h and u = u, OF this] show ?thesis .
  qed
  have probe: "failedUrls (processUrl h u w st) =
        failedUrls st @ [\<lparr>url = u, error = ''Unsupported content type: '', timestamp = now w\<rparr>] \<and>
      ErrorCheckingContentType u e \<in> set (stderr (processUrl h u w st))"
    if "probe w = ProbeError e"
    using that
    by (simp add: processUrl_def tryBlock_def checkContentType_def recordFailure_fields)
  have runs: "\<exists>end new. takeScreenshots h su env = Inr end \<and>
         processed end = length (workList su) \<and>
         failedUrls end = failedUrls (initial su) @ new \<and>
         url ` set new \<subseteq> set (workList su) \<and>
         (\<forall>x \<in> set (workList su). urlMap end x \<noteq> None \<or> x \<in> url ` set new)"
    if "urls_file su = Inr urls" "mkdirs su = None" "launch su = None"
  proof -
    let ?end = "finallyBlock (loop h env 0 (initial su) (workList su))"
    have start: "\<not> isShuttingDown (initial su)" by (simp add: initial_fields)
    from loop_outcomes [OF start, of h env 0 "workList su"] obtain new
      where new: "failedUrls (loop h env 0 (initial su) (workList su)) = failedUrls (initial su) @ new"
        "url ` set new \<subseteq> set (workList su)"
        "\<forall>x \<in> set (workList su).
           urlMap (loop h env 0 (initial su) (workList su)) x \<noteq> None \<or> x \<in> url ` set new"
      by blast
    have "takeScreenshots h su env = Inr ?end"
      using that by (simp add: takeScreenshots_def)
    moreover have "processed ?end = length (workList su)"
      by (simp add: finallyBlock_def loop_processed initial_fields)
    moreover have "failedUrls ?end = failedUrls (initial su) @ new"
      "\<forall>x \<in> set (workList su). urlMap ?end x \<noteq> None \<or> x \<in> url ` set new"
      using new by (simp_all add: finallyBlock_def)
    ultimately show ?thesis using new(2) by blast
  qed
  have c1: "tryBlock u (h u) w st = (Some m, st1) \<longrightarrow>
      failedUrls (processUrl h u w st) =
        failedUrls st @ [\<lparr>url = u, error = (if m = ''Timeout'' then ''Processing timeout'' else m),
                          timestamp = now w\<rparr>]"
    using processUrl_thrown [of u h w st m st1] by (rule impI)
  have c2: "checkContentType u (probe w) st = (ct, st0) \<and> includes_str ct ''html'' \<and>
    \<not> includes_str ct ''pdf'' \<and> \<not> includes_str ct ''word'' \<and>
    \<not> checkFilesExist (pageFiles (h u)) st \<longrightarrow>
      (capture w = Rejected n m \<longrightarrow>
         failedUrls (processUrl h u w st) =
           failedUrls st @ [\<lparr>url = u, error = (if m = ''Timeout'' then ''Processing timeout'' else m),
                             timestamp = now w\<rparr>]) \<and>
      (capture w = TimerFirst n \<longrightarrow>
         failedUrls (processUrl h u w st) =
           failedUrls st @ [\<lparr>url = u, error = ''Processing timeout'', timestamp = now w\<rparr>])"
    using rejected timer by (intro impI conjI; elim conjE)
  have c3: "checkContentType u (probe w) st = (ct, st0) \<and>
    (includes_str ct ''pdf'' \<or> includes_str ct ''word'') \<and> download w = FetchFailed m \<longrightarrow>
      failedUrls (processUrl h u w st) =
        failedUrls st @ [\<lparr>url = u, error = (if m = ''Timeout'' then ''Processing timeout'' else m),
                          timestamp = now w\<rparr>]"
    using fetch by (intro impI; elim conjE)
  have c4: "probe w = ProbeError e \<longrightarrow>
      failedUrls (processUrl h u w st) =
        failedUrls st @ [\<lparr>url = u, error = ''Unsupported content type: '', timestamp = now w\<rparr>] \<and>
      ErrorCheckingContentType u e \<in> set (stderr (processUrl h u w st))"
    using probe by (rule impI)
  have c6: "\<not> isShuttingDown st \<longrightarrow>
      loop h env k st (v # vs)
        = loop h env (Suc k) (processUrl h v (env k) (st\<lparr>processed := Suc (processed st)\<rparr>)) vs \<and>
      processed (loop h env k st vs) = processed st + length vs \<and>
      (\<exists>new. failedUrls (loop h env k st vs) = failedUrls st @ new \<and>
             url ` set new \<subseteq> set vs \<and>
             (\<forall>x \<in> set vs. urlMap (loop h env k st vs) x \<noteq> None \<or> x \<in> url ` set new))"
    using loop_next [of st h env k v vs] loop_processed [of st h env k vs]
      loop_outcomes [of st h env k vs]
    by (intro impI conjI)
  have c7: "urls_file su = Inr urls \<and> mkdirs su = None \<and> launch su = None \<longrightarrow>
      (\<exists>end new. takeScreenshots h su env = Inr end \<and>
         processed end = length (workList su) \<and>
         failedUrls end = failedUrls (initial su) @ new \<and>
         url ` set new \<subseteq> set (workList su) \<and>
         (\<forall>x \<in> set (workList su). urlMap end x \<noteq> None \<or> x \<in> url ` set new))"
    using runs by (intro impI; elim conjE)
  show ?thesis
    by (intro conjI) (rule c1, rule c2, rule c3, rule c4, rule processUrl_outcome, rule c6, rule c7)
qed

text \<open>
  Claim C6 as stated fails on the message. When the timer wins the race the error thrown
  has the message \<open>Timeout\<close> and the record says \<open>Processing timeout\<close>; when the probe
  fails with \<open>fetch failed\<close> the record says \<open>Unsupported content type: \<close>.
\<close>

theorem per_url_errors_counterexample:
  "fst (tryBlock ''http://a'' (exampleHash ''http://a'') (exampleWorld\<lparr>capture := TimerFirst 0\<rparr>)
         exampleState) = Some ''Timeout'' \<and>
   failedUrls (processUrl exampleHash ''http://a'' (exampleWorld\<lparr>capture := TimerFirst 0\<rparr>)
      exampleState)
     = [\<lparr>url = ''http://a'', error = ''Processing timeout'', timestamp = ''t1''\<rparr>] \<and>
   probe (exampleWorld\<lparr>probe := ProbeError ''fetch failed''\<rparr>) = ProbeError ''fetch failed'' \<and>
   failedUrls (processUrl exampleHash ''http://a'' (exampleWorld\<lparr>probe := ProbeError ''fetch failed''\<rparr>)
      exampleState)
     = [\<lparr>url = ''http://a'', error = ''Unsupported content type: '', timestamp = ''t1''\<rparr>]"
  by (simp add: exampleWorld_def exampleState_def exampleHash_def processUrl_def tryBlock_def
      checkContentType_def toLowerCase_def lowerChar_def pageBranch_def checkFilesExist_def
      pageFiles_def capturePage_def catchError_def recordFailure_def)

theorem per_url_errors_witness:
  "failedUrls (processUrl exampleHash ''http://b''
      (exampleWorld\<lparr>probe := ContentType ''application/pdf'', download := FetchFailed ''fetch failed''\<rparr>)
      (exampleState\<lparr>failedUrls := exampleLedger\<rparr>))
     = exampleLedger @ [\<lparr>url = ''http://b'', error = ''fetch failed'', timestamp = ''t1''\<rparr>] \<and>
   failedUrls (processUrl exampleHash ''http://b''
      (exampleWorld\<lparr>capture := Rejected 1 ''net::ERR_ABORTED''\<rparr>)
      (exampleState\<lparr>failedUrls := exampleLedger\<rparr>))
     = exampleLedger @ [\<lparr>url = ''http://b'', error = ''net::ERR_ABORTED'', timestamp = ''t1''\<rparr>] \<and>
   (\<exists>new. failedUrls (loop exampleHash
               (\<lambda>k. if k = 0 then exampleWorld\<lparr>capture := TimerFirst 0\<rparr> else exampleWorld) 0
               (exampleState\<lparr>failedUrls := exampleLedger\<rparr>) [''http://b'', ''http://c''])
             = exampleLedger @ new \<and>
           (urlMap (loop exampleHash
               (\<lambda>k. if k = 0 then exampleWorld\<lparr>capture := TimerFirst 0\<rparr> else exampleWorld) 0
               (exampleState\<lparr>failedUrls := exampleLedger\<rparr>) [''http://b'', ''http://c''])
              ''http://c'' \<noteq> None \<or> ''http://c'' \<in> url ` set new)) \<and>
   failedUrls (loop exampleHash
       (\<lambda>k. if k = 0 then exampleWorld\<lparr>capture := TimerFirst 0\<rparr> else exampleWorld) 0
       (exampleState\<lparr>failedUrls := exampleLedger\<rparr>) [''http://b'', ''http://c''])
     = exampleLedger @ [\<lparr>url = ''http://b'', error = ''Processing timeout'', timestamp = ''t1''\<rparr>] \<and>
   urlMap (loop exampleHash
       (\<lambda>k. if k = 0 then exampleWorld\<lparr>capture := TimerFirst 0\<rparr> else exampleWorld) 0
       (exampleState\<lparr>failedUrls := exampleLedger\<rparr>) [''http://b'', ''http://c'']) ''http://c''
     = Some (PageArtifacts ''md5-http://c.png'' ''md5-http://c.html'' ''md5-http://c.txt'') \<and>
   (\<exists>end. takeScreenshots exampleHash exampleStartup
            (\<lambda>k. if k = 0 then exampleWorld\<lparr>capture := TimerFirst 0\<rparr> else exampleWorld) = Inr end \<and>
          processed end = length (workList exampleStartup))"
proof -
  let ?W = "exampleWorld\<lparr>probe := ContentType ''application/pdf'', download := FetchFailed ''fetch failed''\<rparr>"
  let ?R = "exampleWorld\<lparr>capture := Rejected 1 ''net::ERR_ABORTED''\<rparr>"
  let ?S = "exampleState\<lparr>failedUrls := exampleLedger\<rparr>"
  let ?env = "\<lambda>k::nat. if k = 0 then exampleWorld\<lparr>capture := TimerFirst 0\<rparr> else exampleWorld"
  have probes: "checkContentType ''http://b'' (probe ?W) ?S = (''application/pdf'', ?S)"
    "checkContentType ''http://b'' (probe ?R) ?S = (''text/html; charset=utf-8'', ?S)"
    by (simp_all add: exampleWorld_def checkContentType_def toLowerCase_def lowerChar_def)
  have types: "includes_str ''application/pdf'' ''pdf''"
    "includes_str ''text/html; charset=utf-8'' ''html''"
    "\<not> includes_str ''text/html; charset=utf-8'' ''pdf''"
    "\<not> includes_str ''text/html; charset=utf-8'' ''word''"
    by simp_all
  have given: "\<not> checkFilesExist (pageFiles (exampleHash ''http://b'')) ?S"
    "download ?W = FetchFailed ''fetch failed''" "capture ?R = Rejected 1 ''net::ERR_ABORTED''"
    "\<not> isShuttingDown ?S" "failedUrls ?S = exampleLedger" "processed ?S = 0"
    "now ?W = ''t1''" "now ?R = ''t1''"
    by (simp_all add: exampleState_def exampleWorld_def checkFilesExist_def pageFiles_def)
  have ready: "urls_file exampleStartup = Inr [''http://a'', ''http://b'']"
    "mkdirs exampleStartup = None" "launch exampleStartup = None"
    by (simp_all add: exampleStartup_def)
  let ?S1 = "processUrl exampleHash ''http://b'' (exampleWorld\<lparr>capture := TimerFirst 0\<rparr>)
        (?S\<lparr>processed := Suc (processed ?S)\<rparr>)"
  have first: "failedUrls ?S1 = exampleLedger @
           [\<lparr>url = ''http://b'', error = ''Processing timeout'', timestamp = ''t1''\<rparr>]"
    "files ?S1 = {}" "\<not> isShuttingDown ?S1"
    by (simp_all add: exampleWorld_def exampleState_def exampleHash_def processUrl_def tryBlock_def
        checkContentType_def toLowerCase_def lowerChar_def pageBranch_def checkFilesExist_def
        pageFiles_def capturePage_def catchError_def recordFailure_def)
  have second: "failedUrls (processUrl exampleHash ''http://c'' exampleWorld st) = failedUrls st \<and>
      urlMap (processUrl exampleHash ''http://c'' exampleWorld st) ''http://c''
        = Some (PageArtifacts ''md5-http://c.png'' ''md5-http://c.html'' ''md5-http://c.txt'')"
    if "files st = {}" for st
    using that
    by (simp add: exampleWorld_def exampleHash_def processUrl_def tryBlock_def
        checkContentType_def toLowerCase_def lowerChar_def pageBranch_def checkFilesExist_def
        pageFiles_def capturePage_def pageArtifacts_def Let_def updateIndexFiles_fields)
  note inst = per_url_errors [of "''http://b''" exampleHash ?W ?S "''fetch failed''" _
      "''application/pdf''" ?S _ _ ?env 0 "''http://b''" "[''http://c'']"
      exampleStartup "[''http://a'', ''http://b'']"]
  note inst2 = per_url_errors [of "''http://b''" exampleHash ?R ?S "''net::ERR_ABORTED''" _
      "''text/html; charset=utf-8''" ?S 1]
  have a: "failedUrls (processUrl exampleHash ''http://b'' ?W ?S)
     = exampleLedger @ [\<lparr>url = ''http://b'', error = ''fetch failed'', timestamp = ''t1''\<rparr>]"
    using inst probes(1) types(1) given by simp
  have b: "failedUrls (processUrl exampleHash ''http://b'' ?R ?S)
     = exampleLedger @ [\<lparr>url = ''http://b'', error = ''net::ERR_ABORTED'', timestamp = ''t1''\<rparr>]"
    using inst2 probes(2) types given by simp
  have step: "loop exampleHash ?env 0 ?S [''http://b'', ''http://c'']
      = loop exampleHash ?env (Suc 0)
          (processUrl exampleHash ''http://b'' (?env 0) (?S\<lparr>processed := Suc (processed ?S)\<rparr>))
          [''http://c'']"
    using inst given(4) by blast
  have c: "\<exists>end. takeScreenshots exampleHash exampleStartup ?env = Inr end \<and>
          processed end = length (workList exampleStartup)"
    using inst ready by blast
  have e: "?env 0 = exampleWorld\<lparr>capture := TimerFirst 0\<rparr>" "?env (Suc 0) = exampleWorld"
    by simp_all
  have whole: "loop exampleHash ?env 0 ?S [''http://b'', ''http://c'']
      = processUrl exampleHash ''http://c'' exampleWorld (?S1\<lparr>processed := Suc (processed ?S1)\<rparr>)"
    unfolding step e(1) using first(3) by (simp add: e(2))
  have d: "failedUrls (loop exampleHash ?env 0 ?S [''http://b'', ''http://c''])
     = exampleLedger @ [\<lparr>url = ''http://b'', error = ''Processing timeout'', timestamp = ''t1''\<rparr>]"
    "urlMap (loop exampleHash ?env 0 ?S [''http://b'', ''http://c'']) ''http://c''
     = Some (PageArtifacts ''md5-http://c.png'' ''md5-http://c.html'' ''md5-http://c.txt'')"
    unfolding whole using second [of "?S1\<lparr>processed := Suc (processed ?S1)\<rparr>"] first
    by simp_all
  show ?thesis
    using a b c d by (simp del: loop.simps)
qed

section \<open>Flushing after every outcome\<close>

lemma settle_last:
  assumes "unawaited st = pre @ [Call m fs]"
  shows "settle (length pre) ws st = afterWrites ws m fs (st\<lparr>unawaited := pre\<rparr>)"
  using assms by (simp add: settle_def without_def)

lemma settle_recorded:
  assumes "unawaited st' = pre @ [Call m fs]"
  shows "index_json (settle (length pre) ws st') = written (fst ws) m (index_json st') \<and>
         failed_json (settle (length pre) ws st') = written (snd ws) fs (failed_json st') \<and>
         unawaited (settle (length pre) ws st') = pre @ leftover ws m fs \<and>
         (\<forall>e. writeError ws = Some e \<longrightarrow>
              ErrorUpdatingIndexFiles e \<in> set (stderr (settle (length pre) ws st')))"
  unfolding settle_last [OF assms] by (simp add: afterWrites_fields afterWrites_logged)

lemma step_flushed:
  "failedUrls (processUrl h u w st) = failedUrls st \<longrightarrow>
      index_json (processUrl h u w st)
        = written (fst (flush w)) (urlMap (processUrl h u w st)) (index_json st) \<and>
      failed_json (processUrl h u w st)
        = written (snd (flush w)) (failedUrls (processUrl h u w st)) (failed_json st) \<and>
      unawaited (processUrl h u w st)
        = unawaited st @ leftover (flush w) (urlMap (processUrl h u w st))
                           (failedUrls (processUrl h u w st)) \<and>
      (\<forall>m. writeError (flush w) = Some m \<longrightarrow>
           ErrorUpdatingIndexFiles m \<in> set (stderr (processUrl h u w st)))"
proof -
  obtain r st1 where t: "tryBlock u (h u) w st = (r, st1)"
    by (cases "tryBlock u (h u) w st")
  from t show ?thesis
  proof (cases rule: tryBlock_cases)
    case flushed
    with t have "processUrl h u w st = st1" by (simp add: processUrl_def)
    with flushed show ?thesis by simp
  next
    case (unsupported ct st0)
    with t have "processUrl h u w st
        = recordFailure u (''Unsupported content type: '' @ ct) (now w) st0"
      by (simp add: processUrl_def)
    with checkContentType_fields [OF unsupported(2)] show ?thesis
      by (simp add: recordFailure_fields)
  next
    case (thrown m)
    with t have "processUrl h u w st = catchError u m (now w) st1"
      by (simp add: processUrl_def)
    with thrown show ?thesis
      by (simp add: catchError_fields)
  qed
qed

lemma step_failed:
  "failedUrls (processUrl h u w st) \<noteq> failedUrls st \<longrightarrow>
      (\<exists>pre. unawaited (processUrl h u w st)
          = unawaited st @ pre @
            [Call (urlMap (processUrl h u w st)) (failedUrls (processUrl h u w st))]) \<and>
      ((\<forall>e. capture w \<noteq> CloseFailed e) \<longrightarrow>
         unawaited (processUrl h u w st)
           = unawaited st @
             [Call (urlMap (processUrl h u w st)) (failedUrls (processUrl h u w st))] \<and>
         index_json (processUrl h u w st) = index_json st \<and>
         failed_json (processUrl h u w st) = failed_json st)"
proof -
  obtain r st1 where t: "tryBlock u (h u) w st = (r, st1)"
    by (cases "tryBlock u (h u) w st")
  from t show ?thesis
  proof (cases rule: tryBlock_cases)
    case flushed
    with t have "processUrl h u w st = st1" by (simp add: processUrl_def)
    with flushed show ?thesis by simp
  next
    case (unsupported ct st0)
    with t have "processUrl h u w st
        = recordFailure u (''Unsupported content type: '' @ ct) (now w) st0"
      by (simp add: processUrl_def)
    with checkContentType_fields [OF unsupported(2)] show ?thesis
      by (simp add: recordFailure_fields)
  next
    case (thrown m)
    with t have p: "processUrl h u w st = catchError u m (now w) st1"
      by (simp add: processUrl_def)
    from thrown(2) obtain pre where "unawaited st1 = unawaited st @ pre" by blast
    with p thrown show ?thesis
      by (simp add: catchError_fields)
  qed
qed

lemma step_failed_settles:
  assumes "failedUrls (processUrl h u w st) \<noteq> failedUrls st" "\<forall>e. capture w \<noteq> CloseFailed e"
  shows "index_json (settle (length (unawaited st)) ws (processUrl h u w st))
           = written (fst ws) (urlMap (processUrl h u w st)) (index_json st) \<and>
         failed_json (settle (length (unawaited st)) ws (processUrl h u w st))
           = written (snd ws) (failedUrls (processUrl h u w st)) (failed_json st) \<and>
         unawaited (settle (length (unawaited st)) ws (processUrl h u w st))
           = unawaited st @ leftover ws (urlMap (processUrl h u w st))
                              (failedUrls (processUrl h u w st)) \<and>
         (\<forall>e. writeError ws = Some e \<longrightarrow>
              ErrorUpdatingIndexFiles e
                \<in> set (stderr (settle (length (unawaited st)) ws (processUrl h u w st))))"
proof -
  from step_failed [of h u w st] assms
  have a: "unawaited (processUrl h u w st)
           = unawaited st @
             [Call (urlMap (processUrl h u w st)) (failedUrls (processUrl h u w st))]"
    and b: "index_json (processUrl h u w st) = index_json st"
      "failed_json (processUrl h u w st) = failed_json st"
    by blast+
  from settle_recorded [OF a, of ws] b show ?thesis by simp
qed

text \<open>
  Claim C2, as the code has it. A step that records no failure has awaited
  \<open>updateIndexFiles\<close> on the memory it leaves: each of the two files holds what its write
  made of it. With both writes successful the files hold the index and the ledger of the
  memory and nothing of the call is left in flight. When a write is refused,
  \<open>Promise.all\<close> rejects at that refusal and the call returns: the message is logged, and
  the other write, if it has not settled, is still in flight when the loop goes on, its
  file as it was. A step that records a failure has only started the call:
  \<open>recordFailure\<close> hands the snapshot of the memory to \<open>updateIndexFiles\<close> and returns,
  the loop goes on with that call in flight, and (unless \<open>page.close()\<close> was what failed,
  after an awaited call) the files are as they were before the step. When that call
  settles, whenever that is, the files hold what its two writes made of them for the
  snapshot, and a refused write is logged as in the awaited call. No write error, of an
  awaited call or of one that was not awaited, is thrown to the loop: a call that settles
  changes neither the memory, the flag nor the count, and the loop goes from each URL to
  the next and starts every URL of its list.
\<close>

theorem flush_after_outcome:
  "(failedUrls (processUrl h u w st) = failedUrls st \<longrightarrow>
      index_json (processUrl h u w st)
        = written (fst (flush w)) (urlMap (processUrl h u w st)) (index_json st) \<and>
      failed_json (processUrl h u w st)
        = written (snd (flush w)) (failedUrls (processUrl h u w st)) (failed_json st) \<and>
      unawaited (processUrl h u w st)
        = unawaited st @ leftover (flush w) (urlMap (processUrl h u w st))
                           (failedUrls (processUrl h u w st)) \<and>
      (\<forall>m. writeError (flush w) = Some m \<longrightarrow>
           ErrorUpdatingIndexFiles m \<in> set (stderr (processUrl h u w st)))) \<and>
   (failedUrls (processUrl h u w st) = failedUrls st \<and> flush w = (Saved, Saved) \<longrightarrow>
      index_json (processUrl h u w st) = Parsed (urlMap (processUrl h u w st)) \<and>
      failed_json (processUrl h u w st) = Parsed (failedUrls (processUrl h u w st)) \<and>
      unawaited (processUrl h u w st) = unawaited st) \<and>
   (failedUrls (processUrl h u w st) = failedUrls st \<and> flush w = (Refused e, InFlight) \<longrightarrow>
      index_json (processUrl h u w st) = index_json st \<and>
      failed_json (processUrl h u w st) = failed_json st \<and>
      unawaited (processUrl h u w st)
        = unawaited st @ [LedgerWrite (failedUrls (processUrl h u w st))] \<and>
      ErrorUpdatingIndexFiles e \<in> set (stderr (processUrl h u w st))) \<and>
   (failedUrls (processUrl h u w st) \<noteq> failedUrls st \<longrightarrow>
      (\<exists>pre. unawaited (processUrl h u w st)
          = unawaited st @ pre @
            [Call (urlMap (processUrl h u w st)) (failedUrls (processUrl h u w st))]) \<and>
      ((\<forall>e. capture w \<noteq> CloseFailed e) \<longrightarrow>
         unawaited (processUrl h u w st)
           = unawaited st @
             [Call (urlMap (processUrl h u w st)) (failedUrls (processUrl h u w st))] \<and>
         index_json (processUrl h u w st) = index_json st \<and>
         failed_json (processUrl h u w st) = failed_json st)) \<and>
   (failedUrls (processUrl h u w st) \<noteq> failedUrls st \<and> (\<forall>e. capture w \<noteq> CloseFailed e) \<longrightarrow>
      index_json (settle (length (unawaited st)) ws (processUrl h u w st))
        = written (fst ws) (urlMap (processUrl h u w st)) (index_json st) \<and>
      failed_json (settle (length (unawaited st)) ws (processUrl h u w st))
        = written (snd ws) (failedUrls (processUrl h u w st)) (failed_json st) \<and>
      unawaited (settle (length (unawaited st)) ws (processUrl h u w st))
        = unawaited st @ leftover ws (urlMap (processUrl h u w st))
                           (failedUrls (processUrl h u w st)) \<and>
      (\<forall>e. writeError ws = Some e \<longrightarrow>
           ErrorUpdatingIndexFiles e
             \<in> set (stderr (settle (length (unawaited st)) ws (processUrl h u w st))))) \<and>
   (urlMap (settle n ws st) = urlMap st \<and> failedUrls (settle n ws st) = failedUrls st \<and>
    isShuttingDown (settle n ws st) = isShuttingDown st \<and>
    processed (settle n ws st) = processed st) \<and>
   (\<not> isShuttingDown st \<longrightarrow>
      loop h env k st (v # us)
        = loop h env (Suc k) (processUrl h v (env k) (st\<lparr>processed := Suc (processed st)\<rparr>)) us \<and>
      processed (loop h env k st us) = processed st + length us)"
proof -
  note f = step_flushed [of h u w st]
  have c2: "failedUrls (processUrl h u w st) = failedUrls st \<and> flush w = (Saved, Saved) \<longrightarrow>
      index_json (processUrl h u w st) = Parsed (urlMap (processUrl h u w st)) \<and>
      failed_json (processUrl h u w st) = Parsed (failedUrls (processUrl h u w st)) \<and>
      unawaited (processUrl h u w st) = unawaited st"
    using f by (simp add: saved_both)
  have c3: "failedUrls (processUrl h u w st) = failedUrls st \<and> flush w = (Refused e, InFlight) \<longrightarrow>
      index_json (processUrl h u w st) = index_json st \<and>
      failed_json (processUrl h u w st) = failed_json st \<and>
      unawaited (processUrl h u w st)
        = unawaited st @ [LedgerWrite (failedUrls (processUrl h u w st))] \<and>
      ErrorUpdatingIndexFiles e \<in> set (stderr (processUrl h u w st))"
    using f by (simp add: written_def leftover_def writeError_def rejection_def)
  have c5: "failedUrls (processUrl h u w st) \<noteq> failedUrls st \<and> (\<forall>e. capture w \<noteq> CloseFailed e) \<longrightarrow>
      index_json (settle (length (unawaited st)) ws (processUrl h u w st))
        = written (fst ws) (urlMap (processUrl h u w st)) (index_json st) \<and>
      failed_json (settle (length (unawaited st)) ws (processUrl h u w st))
        = written (snd ws) (failedUrls (processUrl h u w st)) (failed_json st) \<and>
      unawaited (settle (length (unawaited st)) ws (processUrl h u w st))
        = unawaited st @ leftover ws (urlMap (processUrl h u w st))
                           (failedUrls (processUrl h u w st)) \<and>
      (\<forall>e. writeError ws = Some e \<longrightarrow>
           ErrorUpdatingIndexFiles e
             \<in> set (stderr (settle (length (unawaited st)) ws (processUrl h u w st))))"
    using step_failed_settles [of h u w st ws] by blast
  have c7: "\<not> isShuttingDown st \<longrightarrow>
      loop h env k st (v # us)
        = loop h env (Suc k) (processUrl h v (env k) (st\<lparr>processed := Suc (processed st)\<rparr>)) us \<and>
      processed (loop h env k st us) = processed st + length us"
    using loop_next [of st h env k v us] loop_processed [of st h env k us] by blast
  show ?thesis
    by (intro conjI) (rule f, rule c2, rule c3, rule step_failed, rule c5,
      rule settle_fields(1), rule settle_fields(2), rule settle_fields(7), rule settle_fields(8),
      rule c7)
qed

text \<open>
  Claim C2 as stated fails on a URL that fails: with both writes successful, after the
  step of a URL with content type \<open>image/png\<close> the ledger in memory holds the record
  and \<open>failed_urls.json\<close> does not; the call is the one that was not awaited.
\<close>

theorem flush_not_awaited_counterexample:
  "flush (exampleWorld\<lparr>probe := ContentType ''image/png''\<rparr>) = (Saved, Saved) \<and>
   failedUrls (processUrl exampleHash ''http://c'' (exampleWorld\<lparr>probe := ContentType ''image/png''\<rparr>)
      exampleState)
     = [\<lparr>url = ''http://c'', error = ''Unsupported content type: image/png'', timestamp = ''t1''\<rparr>] \<and>
   failed_json (processUrl exampleHash ''http://c'' (exampleWorld\<lparr>probe := ContentType ''image/png''\<rparr>)
      exampleState) = Missing \<and>
   failed_json (processUrl exampleHash ''http://c'' (exampleWorld\<lparr>probe := ContentType ''image/png''\<rparr>)
      exampleState)
     \<noteq> Parsed (failedUrls (processUrl exampleHash ''http://c''
          (exampleWorld\<lparr>probe := ContentType ''image/png''\<rparr>) exampleState)) \<and>
   unawaited (processUrl exampleHash ''http://c'' (exampleWorld\<lparr>probe := ContentType ''image/png''\<rparr>)
      exampleState)
     = [Call Map.empty
         [\<lparr>url = ''http://c'', error = ''Unsupported content type: image/png'', timestamp = ''t1''\<rparr>]]"
  by (simp add: exampleWorld_def exampleState_def processUrl_def tryBlock_def
      checkContentType_def toLowerCase_def lowerChar_def recordFailure_def)

theorem flush_after_outcome_witness:
  "index_json (processUrl exampleHash ''http://a'' exampleWorld exampleState)
     = Parsed (urlMap (processUrl exampleHash ''http://a'' exampleWorld exampleState)) \<and>
   failed_json (processUrl exampleHash ''http://a'' exampleWorld exampleState) = Parsed [] \<and>
   unawaited (processUrl exampleHash ''http://a'' exampleWorld exampleState) = [] \<and>
   index_json (processUrl exampleHash ''http://a''
      (exampleWorld\<lparr>flush := (Refused ''ENOSPC'', InFlight)\<rparr>) exampleState) = Missing \<and>
   failed_json (processUrl exampleHash ''http://a''
      (exampleWorld\<lparr>flush := (Refused ''ENOSPC'', InFlight)\<rparr>) exampleState) = Missing \<and>
   unawaited (processUrl exampleHash ''http://a''
      (exampleWorld\<lparr>flush := (Refused ''ENOSPC'', InFlight)\<rparr>) exampleState) = [LedgerWrite []] \<and>
   ErrorUpdatingIndexFiles ''ENOSPC''
     \<in> set (stderr (processUrl exampleHash ''http://a''
                (exampleWorld\<lparr>flush := (Refused ''ENOSPC'', InFlight)\<rparr>) exampleState)) \<and>
   unawaited (processUrl exampleHash ''http://c'' (exampleWorld\<lparr>probe := ContentType ''image/png''\<rparr>)
      exampleState)
     = [Call (urlMap (processUrl exampleHash ''http://c''
           (exampleWorld\<lparr>probe := ContentType ''image/png''\<rparr>) exampleState))
         (failedUrls (processUrl exampleHash ''http://c''
           (exampleWorld\<lparr>probe := ContentType ''image/png''\<rparr>) exampleState))] \<and>
   failed_json (settle 0 (Saved, Saved)
      (processUrl exampleHash ''http://c'' (exampleWorld\<lparr>probe := ContentType ''image/png''\<rparr>)
         exampleState))
     = Parsed (failedUrls (processUrl exampleHash ''http://c''
          (exampleWorld\<lparr>probe := ContentType ''image/png''\<rparr>) exampleState)) \<and>
   failed_json (settle 0 (Saved, Refused ''EIO'')
      (processUrl exampleHash ''http://c'' (exampleWorld\<lparr>probe := ContentType ''image/png''\<rparr>)
         exampleState)) = Missing \<and>
   ErrorUpdatingIndexFiles ''EIO''
     \<in> set (stderr (settle 0 (Saved, Refused ''EIO'')
          (processUrl exampleHash ''http://c'' (exampleWorld\<lparr>probe := ContentType ''image/png''\<rparr>)
             exampleState))) \<and>
   loop exampleHash (\<lambda>k. exampleWorld\<lparr>flush := (Refused ''ENOSPC'', InFlight)\<rparr>) 0
      exampleState [''http://a'', ''http://b'']
     = loop exampleHash (\<lambda>k. exampleWorld\<lparr>flush := (Refused ''ENOSPC'', InFlight)\<rparr>) 1
         (processUrl exampleHash ''http://a'' (exampleWorld\<lparr>flush := (Refused ''ENOSPC'', InFlight)\<rparr>)
            (exampleState\<lparr>processed := 1\<rparr>)) [''http://b''] \<and>
   processed (loop exampleHash (\<lambda>k. exampleWorld\<lparr>flush := (Refused ''ENOSPC'', InFlight)\<rparr>) 0
      exampleState [''http://a'', ''http://b'']) = 2"
proof -
  let ?P = "exampleWorld\<lparr>probe := ContentType ''image/png''\<rparr>"
  let ?F = "exampleWorld\<lparr>flush := (Refused ''ENOSPC'', InFlight)\<rparr>"
  let ?ok = "processUrl exampleHash ''http://a'' exampleWorld exampleState"
  let ?ko = "processUrl exampleHash ''http://c'' ?P exampleState"
  let ?full = "processUrl exampleHash ''http://a'' ?F exampleState"
  have ledger: "failedUrls ?ok = []" "failedUrls ?full = []" "failedUrls ?ko \<noteq> []"
    by (simp_all add: exampleWorld_def exampleState_def processUrl_def tryBlock_def
        checkContentType_def toLowerCase_def lowerChar_def recordFailure_def
        pageBranch_def checkFilesExist_def pageFiles_def capturePage_def
        updateIndexFiles_fields)
  have given: "failedUrls exampleState = []" "unawaited exampleState = []"
    "index_json exampleState = Missing" "failed_json exampleState = Missing"
    "\<not> isShuttingDown exampleState" "processed exampleState = 0"
    "flush exampleWorld = (Saved, Saved)" "flush ?F = (Refused ''ENOSPC'', InFlight)"
    "\<forall>e. capture ?P \<noteq> CloseFailed e"
    "writeError (Saved, Refused ''EIO'') = Some ''EIO''"
    "written (Refused ''EIO'') (failedUrls ?ko) (Missing :: failure list jsonfile) = Missing"
    by (simp_all add: exampleState_def exampleWorld_def writeError_def rejection_def written_def)
  note ok = flush_after_outcome [of exampleHash "''http://a''" exampleWorld exampleState]
  note full = flush_after_outcome [of exampleHash "''http://a''" ?F exampleState "''ENOSPC''" _ _
      "\<lambda>k. ?F" 0 "''http://a''" "[''http://b'']"]
  note full2 = flush_after_outcome [of exampleHash "''http://a''" ?F exampleState "''ENOSPC''" _ _
      "\<lambda>k. ?F" 0 "''http://a''" "[''http://a'', ''http://b'']"]
  note ko = flush_after_outcome [of exampleHash "''http://c''" ?P exampleState _ "(Saved, Saved)"]
  note ko2 = flush_after_outcome [of exampleHash "''http://c''" ?P exampleState _ "(Saved, Refused ''EIO'')"]
  have a: "index_json ?ok = Parsed (urlMap ?ok)" "failed_json ?ok = Parsed []" "unawaited ?ok = []"
    using ok ledger(1) given by (simp_all add: written_def leftover_def writeError_def rejection_def)
  have b: "index_json ?full = Missing" "failed_json ?full = Missing"
    "unawaited ?full = [LedgerWrite []]" "ErrorUpdatingIndexFiles ''ENOSPC'' \<in> set (stderr ?full)"
    using full ledger(2) given by (simp_all add: written_def leftover_def writeError_def rejection_def)
  have c: "unawaited ?ko = [Call (urlMap ?ko) (failedUrls ?ko)]"
    "failed_json (settle 0 (Saved, Saved) ?ko) = Parsed (failedUrls ?ko)"
    using ko ledger(3) given by (simp_all add: written_def leftover_def writeError_def rejection_def)
  have d: "failed_json (settle 0 (Saved, Refused ''EIO'') ?ko) = Missing"
    "ErrorUpdatingIndexFiles ''EIO'' \<in> set (stderr (settle 0 (Saved, Refused ''EIO'') ?ko))"
    using ko2 ledger(3) given by (simp_all add: written_def leftover_def writeError_def rejection_def)
  have e: "loop exampleHash (\<lambda>k. ?F) 0 exampleState [''http://a'', ''http://b'']
     = loop exampleHash (\<lambda>k. ?F) 1
         (processUrl exampleHash ''http://a'' ?F (exampleState\<lparr>processed := 1\<rparr>)) [''http://b'']"
    using full given by (simp del: loop.simps)
  have g: "processed (loop exampleHash (\<lambda>k. ?F) 0 exampleState [''http://a'', ''http://b'']) = 2"
    using full2 given by (simp del: loop.simps)
  show ?thesis
    using a b c d e g by (simp del: loop.simps)
qed

end
